theory Spec2Isabelle
  imports Complex_Main "HOL-Library.AList"
begin

section \<open>JavaScript values, objects and thrown values\<close>

text \<open>
  The values a field of a parsed JSON object or of a row can hold: the primitive values,
  and objects (functions included), of which the program observes nothing but that they
  are objects and which are given by a name. Numbers are finite, as \<^verbatim>\<open>JSON.parse\<close>
  produces them; the program only tests them against zero. A string is a sequence of
  the characters U+0000 to U+00FF.
\<close>

datatype jsval = JUndefined | JNull | JBool bool | JNum real | JStr string | JObject string

fun truthy :: "jsval \<Rightarrow> bool" where
  "truthy JUndefined = False"
| "truthy JNull = False"
| "truthy (JBool b) = b"
| "truthy (JNum n) = (n \<noteq> 0)"
| "truthy (JStr s) = (s \<noteq> [])"
| "truthy (JObject n) = True"

text \<open>
  \<^verbatim>\<open>ExtractedData\<close> of \<^verbatim>\<open>types.ts\<close>: an object with string keys, created by
  \<^verbatim>\<open>JSON.parse\<close> or by the literal \<^verbatim>\<open>{}\<close>, so that it inherits from
  \<^verbatim>\<open>Object.prototype\<close>. An object is the list of its own properties, with distinct
  keys, in the order in which the engine enumerates them.

  Reading \<^verbatim>\<open>obj[k]\<close> yields the own property when there is one, the member of
  \<^verbatim>\<open>Object.prototype\<close> of that name when there is one (an object), and
  \<^verbatim>\<open>undefined\<close> otherwise.
\<close>

type_synonym ExtractedData = "(string \<times> jsval) list"

definition Object_prototype_names :: "string list" where
  "Object_prototype_names =
     [''constructor'', ''__defineGetter__'', ''__defineSetter__'', ''hasOwnProperty'',
      ''__lookupGetter__'', ''__lookupSetter__'', ''isPrototypeOf'', ''propertyIsEnumerable'',
      ''toString'', ''valueOf'', ''__proto__'', ''toLocaleString'']"

definition inherited :: "string \<Rightarrow> jsval" where
  "inherited k = JObject (''Object.prototype.'' @ k)"

definition get_prop :: "ExtractedData \<Rightarrow> string \<Rightarrow> jsval" where
  "get_prop obj k =
     (case map_of obj k of
        Some v \<Rightarrow> v
      | None \<Rightarrow> if k \<in> set Object_prototype_names then inherited k else JUndefined)"

text \<open>
  The order of the own keys: array indices (the canonical decimal numerals below
  4294967295) come first in ascending order, the other keys follow in the order of their
  creation. \<open>insert_key\<close> adds a key that the object does not hold yet.
\<close>

definition decimal_value :: "string \<Rightarrow> nat" where
  "decimal_value s = foldl (\<lambda>n c. 10 * n + (of_char c - 48)) 0 s"

definition array_index :: "string \<Rightarrow> nat option" where
  "array_index k =
     (if k = [] then None
      else if list_all (\<lambda>c. c \<in> set ''0123456789'') k then
        (if k = ''0'' then Some 0
         else if take 1 k = ''0'' then None
         else if decimal_value k < 4294967295 then Some (decimal_value k)
         else None)
      else None)"

definition key_before :: "string \<Rightarrow> string \<Rightarrow> bool" where
  "key_before k k' =
     (case array_index k of
        None \<Rightarrow> False
      | Some n \<Rightarrow> (case array_index k' of None \<Rightarrow> True | Some n' \<Rightarrow> n < n'))"

fun insert_key :: "string \<Rightarrow> 'v \<Rightarrow> (string \<times> 'v) list \<Rightarrow> (string \<times> 'v) list" where
  "insert_key k v [] = [(k, v)]"
| "insert_key k v (p # ps) =
     (if key_before k (fst p) then (k, v) # p # ps else p # insert_key k v ps)"

text \<open>
  The assignment \<^verbatim>\<open>obj[k] = v\<close> on an object that was created by \<^verbatim>\<open>{}\<close>. The
  object is its own properties together with whether it still inherits from
  \<^verbatim>\<open>Object.prototype\<close>. An own property is overwritten in place. Otherwise the key
  \<^verbatim>\<open>__proto__\<close> reaches the inherited setter as long as the object inherits it: the
  setter creates no property; it ignores a primitive value, takes an object as the new
  prototype (objects are taken to inherit from \<^verbatim>\<open>Object.prototype\<close> themselves) and
  with \<^verbatim>\<open>null\<close> leaves the object without prototype. Every other assignment
  creates the property.
\<close>

datatype value_kind = KPrimitive | KObject | KNull

fun kind_of :: "jsval \<Rightarrow> value_kind" where
  "kind_of JNull = KNull"
| "kind_of (JObject n) = KObject"
| "kind_of v = KPrimitive"

definition assign ::
  "string \<Rightarrow> 'v \<Rightarrow> value_kind \<Rightarrow> (string \<times> 'v) list \<times> bool \<Rightarrow> (string \<times> 'v) list \<times> bool" where
  "assign k v kind obj =
     (case obj of (own, inherits) \<Rightarrow>
        if k \<in> set (map fst own) then (AList.update k v own, inherits)
        else if k = ''__proto__'' \<and> inherits then (own, kind \<noteq> KNull)
        else (insert_key k v own, inherits))"

text \<open>
  A thrown value: \<^verbatim>\<open>undefined\<close> or \<^verbatim>\<open>null\<close>, or any other value, represented by
  its \<^verbatim>\<open>message\<close> property (\<open>None\<close> when it has none). \<open>message_or\<close> is the
  expression \<^verbatim>\<open>err.message || fallback\<close> for a value of the second kind; for one of
  the first kind the expression itself throws.
\<close>

datatype thrown = ThrownNullish | ThrownValue "string option"

definition message_or :: "string option \<Rightarrow> string \<Rightarrow> string" where
  "message_or message fallback =
     (case message of None \<Rightarrow> fallback | Some m \<Rightarrow> if m = [] then fallback else m)"

fun nth_opt :: "'a list \<Rightarrow> nat \<Rightarrow> 'a option" where
  "nth_opt [] i = None"
| "nth_opt (x # xs) 0 = Some x"
| "nth_opt (x # xs) (Suc i) = nth_opt xs i"

text \<open>\<^verbatim>\<open>s.includes(sub)\<close> and \<^verbatim>\<open>xs.join(sep)\<close> on strings.\<close>

fun str_includes :: "string \<Rightarrow> string \<Rightarrow> bool" where
  "str_includes [] sub = (sub = [])"
| "str_includes (c # cs) sub = (take (length sub) (c # cs) = sub \<or> str_includes cs sub)"

fun join :: "string list \<Rightarrow> string \<Rightarrow> string" where
  "join [] sep = []"
| "join [x] sep = x"
| "join (x # y # ys) sep = x @ sep @ join (y # ys) sep"

section \<open>types.ts\<close>

datatype ProcessingStatus = St_idle | St_loading | St_success | St_error

section \<open>services/geminiService.ts\<close>

datatype schema_type = STRING | OBJECT

record property_schema =
  ps_type :: schema_type
  ps_description :: string

record response_schema =
  rs_type :: schema_type
  rs_properties :: "(string \<times> property_schema) list"
  rs_required :: "string list"

record request =
  req_model :: string
  req_mimeType :: string
  req_data :: string
  req_text :: string
  req_responseMimeType :: string
  req_responseSchema :: response_schema

text \<open>
  The match of \<^verbatim>\<open>/^data:([^;]+);base64,(.+)$/\<close>: the two groups, or \<open>None\<close>. The
  first group cannot hold a semicolon, so it ends at the first one; the second group runs
  to the end of the string and holds no line terminator (the line feed and the carriage
  return, among the characters of a string).
\<close>

definition line_terminator :: "char \<Rightarrow> bool" where
  "line_terminator c = (c = CHR 0x0A \<or> c = CHR 0x0D)"

definition match_data_url :: "string \<Rightarrow> (string \<times> string) option" where
  "match_data_url s =
     (if take 5 s = ''data:'' then
        (let rest = drop 5 s;
             mimeType = takeWhile (\<lambda>c. c \<noteq> CHR '';'') rest;
             tail = dropWhile (\<lambda>c. c \<noteq> CHR '';'') rest;
             rawData = drop 8 tail
         in if mimeType \<noteq> [] \<and> take 8 tail = '';base64,'' \<and> rawData \<noteq> []
               \<and> filter line_terminator rawData = []
            then Some (mimeType, rawData) else None)
      else None)"

text \<open>
  The \<^verbatim>\<open>properties\<close> object filled by \<^verbatim>\<open>targetColumns.forEach\<close>: its own
  properties after the assignments, each of which assigns an object.
\<close>

definition build_properties :: "string list \<Rightarrow> (string \<times> property_schema) list" where
  "build_properties targetColumns =
     fst (foldl (\<lambda>properties col.
                   assign col
                     \<lparr>ps_type = STRING, ps_description = ''Extracted value for '' @ col\<rparr>
                     KObject properties)
                ([], True) targetColumns)"

definition prompt_text :: "string \<Rightarrow> string \<Rightarrow> string list \<Rightarrow> string" where
  "prompt_text mimeType instructions targetColumns =
     ''Extract information from this ''
     @ (if str_includes mimeType ''pdf'' then ''PDF document'' else ''image'')
     @ '' based on these instructions: '' @ [CHR 0x22] @ instructions @ [CHR 0x22] @ ''. ''
     @ [CHR 0x0A] @ replicate 17 (CHR '' '')
     @ ''Match the extracted data to the following keys: '' @ join targetColumns '', '' @ ''. ''
     @ [CHR 0x0A] @ replicate 17 (CHR '' '')
     @ ''If a value is not found, return an empty string. Output valid JSON.''"

text \<open>The argument of \<^verbatim>\<open>ai.models.generateContent\<close>.\<close>

definition build_request :: "string \<Rightarrow> string \<Rightarrow> string \<Rightarrow> string list \<Rightarrow> request" where
  "build_request mimeType rawData instructions targetColumns =
     \<lparr>req_model = ''gemini-3-flash-preview'',
      req_mimeType = mimeType,
      req_data = rawData,
      req_text = prompt_text mimeType instructions targetColumns,
      req_responseMimeType = ''application/json'',
      req_responseSchema =
        \<lparr>rs_type = OBJECT,
         rs_properties = build_properties targetColumns,
         rs_required = targetColumns\<rparr>\<rparr>"

text \<open>
  \<^verbatim>\<open>extractDataFromDocument\<close>. The vendor call and \<^verbatim>\<open>JSON.parse\<close> are parameters:
  \<open>generateContent\<close> returns the \<^verbatim>\<open>text\<close> of the response (\<open>None\<close> when it is
  undefined) or throws; \<open>json_parse\<close> returns the parsed object or throws. A throw inside
  the \<^verbatim>\<open>try\<close> block is replaced by the fixed error of the \<^verbatim>\<open>catch\<close> block.
  Constructing the vendor's client object is taken to succeed. The function returns the
  requests it handed to the vendor, in order, together with its outcome.
\<close>

definition extractDataFromDocument ::
  "(request \<Rightarrow> thrown + string option) \<Rightarrow> (string \<Rightarrow> thrown + ExtractedData) \<Rightarrow>
   string \<Rightarrow> string \<Rightarrow> string list \<Rightarrow> request list \<times> (thrown + ExtractedData)" where
  "extractDataFromDocument generateContent json_parse base64Data instructions targetColumns =
     (case match_data_url base64Data of
        None \<Rightarrow> ([], Inl (ThrownValue (Some ''Invalid file data format'')))
      | Some (mimeType, rawData) \<Rightarrow>
          (let req = build_request mimeType rawData instructions targetColumns in
           (case generateContent req of
              Inl e \<Rightarrow> ([req], Inl e)
            | Inr text \<Rightarrow>
                (case text of
                   None \<Rightarrow>
                     ([req], Inl (ThrownValue (Some ''Failed to interpret document data correctly.'')))
                 | Some t \<Rightarrow>
                     if t = []
                     then ([req], Inl (ThrownValue (Some ''Failed to interpret document data correctly.'')))
                     else (case json_parse t of
                             Inl e \<Rightarrow>
                               ([req], Inl (ThrownValue (Some ''Failed to interpret document data correctly.'')))
                           | Inr result \<Rightarrow> ([req], Inr result))))))"

section \<open>The application component (two revisions)\<close>

text \<open>
  The repository holds two revisions of the component \<^verbatim>\<open>App\<close>, one after the other
  in \<^verbatim>\<open>src/unnamed/part_000\<close>: lines 1 to 509 and lines 510 to 1062. Definitions with
  the suffix \<open>1\<close> embed the first, those with the suffix \<open>2\<close> the second; definitions
  without a suffix are the same in both.
\<close>

record File =
  file_name :: string
  file_type :: string

record preview =
  url :: string
  preview_type :: string
  preview_name :: string

record template =
  tpl_id :: string
  tpl_label :: string
  tpl_prompt :: string

definition EXTRACTION_TEMPLATES :: "template list" where
  "EXTRACTION_TEMPLATES =
     [\<lparr>tpl_id = ''custom'', tpl_label = ''Custom Instructions'', tpl_prompt = []\<rparr>,
      \<lparr>tpl_id = ''invoice'', tpl_label = ''Invoice / Billing'',
       tpl_prompt = ''Extract billing details: Invoice #, Date, Vendor Name, Total Amount, Tax, and Currency.''\<rparr>,
      \<lparr>tpl_id = ''receipt'', tpl_label = ''Retail Receipt'',
       tpl_prompt = ''Extract store name, date, time, total price, and items purchased list.''\<rparr>,
      \<lparr>tpl_id = ''business_card'', tpl_label = ''Business Card'',
       tpl_prompt = ''Extract contact name, company, email, phone number, and address.''\<rparr>,
      \<lparr>tpl_id = ''form'', tpl_label = ''Standard Form'',
       tpl_prompt = ''Extract all key-value pairs from the form fields accurately.''\<rparr>]"

text \<open>The state variables of the component (its \<^verbatim>\<open>useState\<close> cells).\<close>

record app_state =
  docFiles :: "File list"
  docPreviews :: "preview list"
  excelFile :: "File option"
  allHeaders :: "string list"
  selectedHeaders :: "string list"
  selectedTemplate :: template
  customInstructions :: string
  status :: ProcessingStatus
  extractedRows :: "ExtractedData list"
  error :: "string option"

definition initial_state1 :: app_state where
  "initial_state1 =
     \<lparr>docFiles = [], docPreviews = [], excelFile = None, allHeaders = [],
      selectedHeaders = [], selectedTemplate = EXTRACTION_TEMPLATES ! 1,
      customInstructions = [], status = St_idle, extractedRows = [], error = None\<rparr>"

definition initial_state2 :: app_state where
  "initial_state2 =
     \<lparr>docFiles = [], docPreviews = [], excelFile = None, allHeaders = [],
      selectedHeaders = [], selectedTemplate = EXTRACTION_TEMPLATES ! 0,
      customInstructions = [], status = St_idle, extractedRows = [], error = None\<rparr>"

subsection \<open>Document selection\<close>

definition valid_file :: "File \<Rightarrow> bool" where
  "valid_file f = (str_includes (file_type f) ''image'' \<or> str_includes (file_type f) ''pdf'')"

text \<open>
  \<^verbatim>\<open>Promise.all(validFiles.map(...))\<close> over \<^verbatim>\<open>fileToBase64\<close>, which is a parameter
  (the browser's file reader): the previews when every file is read, the first rejection
  otherwise.
\<close>

fun encode_all :: "(File \<Rightarrow> thrown + string) \<Rightarrow> File list \<Rightarrow> thrown + preview list" where
  "encode_all fileToBase64 [] = Inr []"
| "encode_all fileToBase64 (f # fs) =
     (case fileToBase64 f of
        Inl e \<Rightarrow> Inl e
      | Inr base64 \<Rightarrow>
          (case encode_all fileToBase64 fs of
             Inl e \<Rightarrow> Inl e
           | Inr ps \<Rightarrow>
               Inr (\<lparr>url = base64, preview_type = file_type f, preview_name = file_name f\<rparr> # ps)))"

text \<open>
  \<^verbatim>\<open>handleDocumentChange\<close>; the argument is \<^verbatim>\<open>e.target.files\<close> (\<open>None\<close> for null).
  When reading a file fails the handler's promise rejects after the documents were
  added, and the previews are not.
\<close>

definition handleDocumentChange1 ::
  "(File \<Rightarrow> thrown + string) \<Rightarrow> File list option \<Rightarrow> app_state \<Rightarrow> app_state" where
  "handleDocumentChange1 fileToBase64 target_files st =
     (case target_files of
        None \<Rightarrow> st
      | Some files \<Rightarrow>
          (let validFiles = filter valid_file files in
           if length validFiles = 0 \<and> length files > 0
           then st\<lparr>error := Some ''Please select valid image (JPG, PNG) or PDF files.''\<rparr>
           else (let st1 = st\<lparr>error := None\<rparr>;
                     st2 = st1\<lparr>docFiles := docFiles st1 @ validFiles\<rparr>
                 in case encode_all fileToBase64 validFiles of
                      Inl e \<Rightarrow> st2
                    | Inr newPreviews \<Rightarrow>
                        st2\<lparr>docPreviews := docPreviews st2 @ newPreviews\<rparr>)))"

definition handleDocumentChange2 ::
  "(File \<Rightarrow> thrown + string) \<Rightarrow> File list option \<Rightarrow> app_state \<Rightarrow> app_state" where
  "handleDocumentChange2 fileToBase64 target_files st =
     (case target_files of
        None \<Rightarrow> st
      | Some files \<Rightarrow>
          (let validFiles = filter valid_file files in
           if length validFiles = 0 \<and> length files > 0
           then st\<lparr>error := Some ''No valid images or PDF files found in selection.''\<rparr>
           else (let st2 = st\<lparr>docFiles := docFiles st @ validFiles\<rparr>
                 in case encode_all fileToBase64 validFiles of
                      Inl e \<Rightarrow> st2
                    | Inr newPreviews \<Rightarrow>
                        st2\<lparr>docPreviews := docPreviews st2 @ newPreviews\<rparr>)))"

subsection \<open>Spreadsheet selection\<close>

definition removeExcelFile :: "app_state \<Rightarrow> app_state" where
  "removeExcelFile st = st\<lparr>excelFile := None, allHeaders := [], selectedHeaders := []\<rparr>"

text \<open>
  \<^verbatim>\<open>handleExcelChange\<close>; \<open>parseHeaders\<close> is the imported \<^verbatim>\<open>parseExcelHeaders\<close>
  (a rejection is \<open>Inl\<close>). Nothing happens unless a first file is selected.
\<close>

definition handleExcelChange1 ::
  "(File \<Rightarrow> thrown + string list) \<Rightarrow> File list option \<Rightarrow> app_state \<Rightarrow> app_state" where
  "handleExcelChange1 parseHeaders target_files st =
     (case target_files of
        None \<Rightarrow> st
      | Some [] \<Rightarrow> st
      | Some (f # fs) \<Rightarrow>
          (let st1 = st\<lparr>excelFile := Some f, error := None\<rparr> in
           case parseHeaders f of
             Inr foundHeaders \<Rightarrow>
               if length foundHeaders = 0
               then removeExcelFile
                      (st1\<lparr>error := Some ''The selected Excel file appears to be empty or missing headers.''\<rparr>)
               else st1\<lparr>allHeaders := foundHeaders, selectedHeaders := foundHeaders\<rparr>
           | Inl err \<Rightarrow>
               removeExcelFile
                 (st1\<lparr>error := Some (''Error reading the Excel file. Please ensure it'' @ [CHR 0x27]
                                      @ ''s a valid XLSX, XLS, or CSV.'')\<rparr>)))"

definition handleExcelChange2 ::
  "(File \<Rightarrow> thrown + string list) \<Rightarrow> File list option \<Rightarrow> app_state \<Rightarrow> app_state" where
  "handleExcelChange2 parseHeaders target_files st =
     (case target_files of
        None \<Rightarrow> st
      | Some [] \<Rightarrow> st
      | Some (f # fs) \<Rightarrow>
          (let st1 = st\<lparr>excelFile := Some f\<rparr> in
           case parseHeaders f of
             Inr foundHeaders \<Rightarrow>
               st1\<lparr>allHeaders := foundHeaders, selectedHeaders := foundHeaders\<rparr>
           | Inl err \<Rightarrow>
               removeExcelFile
                 (st1\<lparr>error := Some (''Could not read excel headers. Make sure it'' @ [CHR 0x27]
                                      @ ''s a valid XLSX/CSV file.'')\<rparr>)))"

subsection \<open>The batch run\<close>

text \<open>
  A run is recorded as the sequence of its effects in program order: the calls of the
  state setters and the calls of the extraction client (with the arguments passed). The
  state after the run is the state before it with the setter calls applied in order. The
  run reads its inputs from the state captured when it starts.
\<close>

datatype event =
    SetStatus ProcessingStatus
  | SetError "string option"
  | SetExtractedRows "ExtractedData list"
  | Extract string string "string list"

fun apply_event :: "app_state \<Rightarrow> event \<Rightarrow> app_state" where
  "apply_event st (SetStatus s) = st\<lparr>status := s\<rparr>"
| "apply_event st (SetError e) = st\<lparr>error := e\<rparr>"
| "apply_event st (SetExtractedRows rows) = st\<lparr>extractedRows := rows\<rparr>"
| "apply_event st (Extract u ins cols) = st"

definition state_after :: "event list \<Rightarrow> app_state \<Rightarrow> app_state" where
  "state_after evs st = foldl apply_event st evs"

text \<open>The extraction calls of a run, in order.\<close>

fun calls_of :: "event list \<Rightarrow> (string \<times> string \<times> string list) list" where
  "calls_of [] = []"
| "calls_of (Extract u ins cols # evs) = (u, ins, cols) # calls_of evs"
| "calls_of (e # evs) = calls_of evs"

type_synonym client = "string \<Rightarrow> string \<Rightarrow> string list \<Rightarrow> thrown + ExtractedData"

text \<open>
  The client the component imports: the outcome of \<^verbatim>\<open>extractDataFromDocument\<close>
  over a vendor and a parser.
\<close>

definition gemini_client ::
  "(request \<Rightarrow> thrown + string option) \<Rightarrow> (string \<Rightarrow> thrown + ExtractedData) \<Rightarrow> client" where
  "gemini_client generateContent json_parse u ins cols =
     snd (extractDataFromDocument generateContent json_parse u ins cols)"

text \<open>
  The value thrown by \<^verbatim>\<open>preview.url\<close> when \<^verbatim>\<open>docPreviews[i]\<close> is undefined: a
  TypeError, whose message is the engine's (here V8's).
\<close>

definition undefined_preview_error :: thrown where
  "undefined_preview_error =
     ThrownValue (Some (''Cannot read properties of undefined (reading '' @ [CHR 0x27] @ ''url''
                        @ [CHR 0x27] @ '')''))"

text \<open>
  Normalising an extraction result to a full row, in the first revision (lines 140 to
  143): the own properties of \<^verbatim>\<open>fullRow\<close> after the assignments.
\<close>

definition keep_defined :: "jsval \<Rightarrow> jsval" where
  "keep_defined v = (if v \<noteq> JUndefined then v else JStr [])"

definition fullRow1 :: "string list \<Rightarrow> ExtractedData \<Rightarrow> ExtractedData" where
  "fullRow1 headers result =
     fst (foldl (\<lambda>fullRow h.
                   assign h (keep_defined (get_prop result h))
                     (kind_of (keep_defined (get_prop result h))) fullRow)
                ([], True) headers)"

text \<open>The same in the second revision (lines 630 to 633): \<^verbatim>\<open>result[h] || ''\<close>.\<close>

definition keep_truthy :: "jsval \<Rightarrow> jsval" where
  "keep_truthy v = (if truthy v then v else JStr [])"

definition fullRow2 :: "string list \<Rightarrow> ExtractedData \<Rightarrow> ExtractedData" where
  "fullRow2 headers result =
     fst (foldl (\<lambda>fullRow h.
                   assign h (keep_truthy (get_prop result h))
                     (kind_of (keep_truthy (get_prop result h))) fullRow)
                ([], True) headers)"

definition instructions_of :: "app_state \<Rightarrow> string" where
  "instructions_of st =
     (if tpl_id (selectedTemplate st) = ''custom'' then customInstructions st
      else tpl_prompt (selectedTemplate st))"

text \<open>
  The loop of the first revision (lines 135 to 148) from index \<open>i\<close> on, with the rows
  pushed so far: its effects, and the value thrown if the body throws. Every completed
  document publishes a copy of the rows.
\<close>

function loop1 ::
  "client \<Rightarrow> app_state \<Rightarrow> string \<Rightarrow> nat \<Rightarrow> ExtractedData list \<Rightarrow> event list \<times> thrown option" where
  "loop1 extract st instructions i results =
     (if i < length (docFiles st) then
        (case nth_opt (docPreviews st) i of
           None \<Rightarrow> ([], Some undefined_preview_error)
         | Some preview \<Rightarrow>
             (case extract (url preview) instructions (selectedHeaders st) of
                Inl err \<Rightarrow> ([Extract (url preview) instructions (selectedHeaders st)], Some err)
              | Inr result \<Rightarrow>
                  (let results' = results @ [fullRow1 (allHeaders st) result];
                       rest = loop1 extract st instructions (Suc i) results'
                   in (Extract (url preview) instructions (selectedHeaders st)
                         # SetExtractedRows results' # fst rest,
                       snd rest))))
      else ([], None))"
  by pat_completeness auto
termination
  by (relation "measure (\<lambda>(extract, st, instructions, i, results). length (docFiles st) - i)") auto

text \<open>
  \<^verbatim>\<open>processData\<close> of the first revision (lines 115 to 155). When the value caught
  is \<^verbatim>\<open>undefined\<close> or \<^verbatim>\<open>null\<close>, reading its message throws inside the
  \<^verbatim>\<open>catch\<close> block and the run ends without a further effect.
\<close>

definition processData1 :: "client \<Rightarrow> app_state \<Rightarrow> event list" where
  "processData1 extract st =
     (if length (docFiles st) = 0
      then [SetError (Some ''Please upload at least one image or PDF document.'')]
      else if excelFile st = None
      then [SetError (Some ''Please upload a target Excel/CSV template.'')]
      else if length (selectedHeaders st) = 0
      then [SetError (Some ''Please select at least one column to populate.'')]
      else [SetStatus St_loading, SetError None]
           @ (case loop1 extract st (instructions_of st) 0 [] of
                (evs, None) \<Rightarrow> evs @ [SetStatus St_success]
              | (evs, Some ThrownNullish) \<Rightarrow> evs
              | (evs, Some (ThrownValue message)) \<Rightarrow>
                  evs @ [SetError (Some (message_or message
                                           ''An unexpected error occurred during AI processing.'')),
                         SetStatus St_error]))"

text \<open>
  The loop of the second revision (lines 626 to 636): the rows are collected and nothing
  is published inside the loop.
\<close>

function loop2 ::
  "client \<Rightarrow> app_state \<Rightarrow> string \<Rightarrow> nat \<Rightarrow> ExtractedData list \<Rightarrow>
   event list \<times> (thrown + ExtractedData list)" where
  "loop2 extract st instructions i newExtractedRows =
     (if i < length (docFiles st) then
        (case nth_opt (docPreviews st) i of
           None \<Rightarrow> ([], Inl undefined_preview_error)
         | Some preview \<Rightarrow>
             (case extract (url preview) instructions (selectedHeaders st) of
                Inl err \<Rightarrow> ([Extract (url preview) instructions (selectedHeaders st)], Inl err)
              | Inr result \<Rightarrow>
                  (let rest = loop2 extract st instructions (Suc i)
                                (newExtractedRows @ [fullRow2 (allHeaders st) result])
                   in (Extract (url preview) instructions (selectedHeaders st) # fst rest,
                       snd rest))))
      else ([], Inr newExtractedRows))"
  by pat_completeness auto
termination
  by (relation "measure (\<lambda>(extract, st, instructions, i, rows). length (docFiles st) - i)") auto

text \<open>\<^verbatim>\<open>processData\<close> of the second revision (lines 614 to 643).\<close>

definition processData2 :: "client \<Rightarrow> app_state \<Rightarrow> event list" where
  "processData2 extract st =
     (if length (docFiles st) = 0 \<or> excelFile st = None \<or> length (selectedHeaders st) = 0
      then [SetError (Some ''Please upload documents, an Excel file, and select at least one column.'')]
      else [SetStatus St_loading, SetError None]
           @ (case loop2 extract st (instructions_of st) 0 [] of
                (evs, Inr newExtractedRows) \<Rightarrow>
                  evs @ [SetExtractedRows newExtractedRows, SetStatus St_success]
              | (evs, Inl ThrownNullish) \<Rightarrow> evs
              | (evs, Inl (ThrownValue message)) \<Rightarrow>
                  evs @ [SetError (Some (message_or message ''An error occurred during processing.'')),
                         SetStatus St_error]))"

text \<open>
  The outcome of the loop body's extraction step for the document at index \<open>i\<close>: the
  client's result on the preview at that index with the selected columns, or the throw
  of the missing preview.
\<close>

definition attempt :: "client \<Rightarrow> app_state \<Rightarrow> string \<Rightarrow> nat \<Rightarrow> thrown + ExtractedData" where
  "attempt extract st instructions i =
     (case nth_opt (docPreviews st) i of
        None \<Rightarrow> Inl undefined_preview_error
      | Some preview \<Rightarrow> extract (url preview) instructions (selectedHeaders st))"

section \<open>The file handlers (two revisions)\<close>

text \<open>
  \<^verbatim>\<open>src/utils/fileHandlers.ts\<close> (suffix \<open>_fh\<close>) and \<^verbatim>\<open>src/unnamed/part_001\<close>
  (suffix \<open>_p1\<close>) are two revisions of the same module. The spreadsheet library is a
  parameter: a workbook is its sheet names and its sheets by name, over any type of
  sheets, and the library's functions return a value or throw. \<open>xlsx_read\<close> stands for
  reading the file's bytes and \<^verbatim>\<open>XLSX.read\<close> on them; a file reader that never
  delivers the bytes, after which nothing happens, is outside the model.
\<close>

text \<open>
  A cell of a row as \<^verbatim>\<open>sheet_to_json\<close> with \<^verbatim>\<open>header: 1\<close> returns it: a hole
  of the array reads as undefined.
\<close>

datatype cell = CUndefined | CNull | CBool bool | CNum real | CStr string

record 'sheet workbook =
  SheetNames :: "string list"
  Sheets :: "(string \<times> 'sheet) list"

record 'sheet xlsx =
  xlsx_read :: "File \<Rightarrow> thrown + 'sheet workbook"
  sheet_to_json_header1 :: "'sheet option \<Rightarrow> thrown + cell list list"
  sheet_to_json :: "'sheet option \<Rightarrow> thrown + ExtractedData list"
  json_to_sheet :: "ExtractedData list \<Rightarrow> thrown + 'sheet"
  writeFile :: "'sheet workbook \<Rightarrow> string \<Rightarrow> thrown option"

text \<open>
  \<^verbatim>\<open>workbook.SheetNames[0]\<close> used as a property key: the first name, or the key
  \<^verbatim>\<open>undefined\<close> when there is none. \<open>first_sheet\<close> is
  \<^verbatim>\<open>workbook.Sheets[firstSheetName]\<close> (\<open>None\<close> for undefined).
\<close>

definition firstSheetName :: "'sheet workbook \<Rightarrow> string" where
  "firstSheetName wb = (case SheetNames wb of [] \<Rightarrow> ''undefined'' | n # ns \<Rightarrow> n)"

definition first_sheet :: "'sheet workbook \<Rightarrow> 'sheet option" where
  "first_sheet wb = map_of (Sheets wb) (firstSheetName wb)"

text \<open>
  \<^verbatim>\<open>String(h)\<close>; the text of a number is the engine's and is a parameter. Then
  \<^verbatim>\<open>s.trim()\<close>: a string is a sequence of the characters U+0000 to U+00FF, of
  which the tab, the line feed, the vertical tab, the form feed, the carriage return,
  the space and the no-break space are white space.
\<close>

fun String_js :: "(real \<Rightarrow> string) \<Rightarrow> cell \<Rightarrow> string" where
  "String_js number_text CUndefined = ''undefined''"
| "String_js number_text CNull = ''null''"
| "String_js number_text (CBool b) = (if b then ''true'' else ''false'')"
| "String_js number_text (CNum n) = number_text n"
| "String_js number_text (CStr s) = s"

definition white_space :: "char \<Rightarrow> bool" where
  "white_space c = (c = CHR 0x20 \<or> c = CHR 0x09 \<or> c = CHR 0x0A \<or> c = CHR 0x0B
                     \<or> c = CHR 0x0C \<or> c = CHR 0x0D \<or> c = CHR 0xA0)"

definition trim :: "string \<Rightarrow> string" where
  "trim s = rev (dropWhile white_space (rev (dropWhile white_space s)))"

text \<open>
  \<^verbatim>\<open>parseExcelHeaders\<close> of \<^verbatim>\<open>src/utils/fileHandlers.ts\<close> (lines 13 to 35): the first
  row as the library returns it.
\<close>

definition parseExcelHeaders_fh :: "'sheet xlsx \<Rightarrow> File \<Rightarrow> thrown + cell list" where
  "parseExcelHeaders_fh X f =
     (case xlsx_read X f of
        Inl err \<Rightarrow> Inl err
      | Inr wb \<Rightarrow>
          (case sheet_to_json_header1 X (first_sheet wb) of
             Inl err \<Rightarrow> Inl err
           | Inr jsonData \<Rightarrow>
               if length jsonData > 0 then Inr (jsonData ! 0) else Inr []))"

text \<open>
  \<^verbatim>\<open>parseExcelHeaders\<close> of \<^verbatim>\<open>src/unnamed/part_001\<close> (lines 12 to 36): the first row
  with its empty headers filtered out, as strings.
\<close>

definition keep_header :: "(real \<Rightarrow> string) \<Rightarrow> cell \<Rightarrow> bool" where
  "keep_header number_text h =
     (h \<noteq> CUndefined \<and> h \<noteq> CNull \<and> trim (String_js number_text h) \<noteq> [])"

definition parseExcelHeaders_p1 ::
  "'sheet xlsx \<Rightarrow> (real \<Rightarrow> string) \<Rightarrow> File \<Rightarrow> thrown + string list" where
  "parseExcelHeaders_p1 X number_text f =
     (case xlsx_read X f of
        Inl err \<Rightarrow> Inl err
      | Inr wb \<Rightarrow>
          (case sheet_to_json_header1 X (first_sheet wb) of
             Inl err \<Rightarrow> Inl err
           | Inr jsonData \<Rightarrow>
               if length jsonData > 0
               then Inr (map (String_js number_text) (filter (keep_header number_text) (jsonData ! 0)))
               else Inr []))"

text \<open>
  \<^verbatim>\<open>appendAndDownloadExcel\<close>. The outcome is the workbook and file name handed to
  \<^verbatim>\<open>writeFile\<close>, the alert shown, or the value thrown out of the handler.
\<close>

datatype 'sheet export_outcome =
    Written "'sheet workbook" string
  | Alerted string
  | Uncaught thrown

text \<open>
  The body of the \<^verbatim>\<open>onload\<close> handler up to \<^verbatim>\<open>writeFile\<close>, with the prefix of the
  file name as argument: the two revisions differ in the prefix and in what becomes of a
  throw.
\<close>

definition append_rows ::
  "'sheet xlsx \<Rightarrow> string \<Rightarrow> File \<Rightarrow> ExtractedData list \<Rightarrow> thrown + ('sheet workbook \<times> string)" where
  "append_rows X prefix originalFile newData =
     (case xlsx_read X originalFile of
        Inl err \<Rightarrow> Inl err
      | Inr wb \<Rightarrow>
          (case sheet_to_json X (first_sheet wb) of
             Inl err \<Rightarrow> Inl err
           | Inr existingData \<Rightarrow>
               (let combinedData = existingData @ newData in
                case json_to_sheet X combinedData of
                  Inl err \<Rightarrow> Inl err
                | Inr newWorksheet \<Rightarrow>
                    (let wb' = wb\<lparr>Sheets := AList.update (firstSheetName wb) newWorksheet (Sheets wb)\<rparr>;
                         fileName = prefix @ file_name originalFile
                     in case writeFile X wb' fileName of
                          Some err \<Rightarrow> Inl err
                        | None \<Rightarrow> Inr (wb', fileName)))))"

text \<open>\<^verbatim>\<open>src/utils/fileHandlers.ts\<close>, lines 37 to 54: no \<^verbatim>\<open>try\<close>.\<close>

definition appendAndDownloadExcel_fh ::
  "'sheet xlsx \<Rightarrow> File \<Rightarrow> ExtractedData list \<Rightarrow> 'sheet export_outcome" where
  "appendAndDownloadExcel_fh X originalFile newData =
     (case append_rows X ''updated_'' originalFile newData of
        Inl err \<Rightarrow> Uncaught err
      | Inr (wb', fileName) \<Rightarrow> Written wb' fileName)"

text \<open>\<^verbatim>\<open>src/unnamed/part_001\<close>, lines 38 to 60: a throw ends in an alert.\<close>

definition appendAndDownloadExcel_p1 ::
  "'sheet xlsx \<Rightarrow> File \<Rightarrow> ExtractedData list \<Rightarrow> 'sheet export_outcome" where
  "appendAndDownloadExcel_p1 X originalFile newData =
     (case append_rows X ''datafide_results_'' originalFile newData of
        Inl err \<Rightarrow> Alerted ''Error generating the updated file. Check the console for details.''
      | Inr (wb', fileName) \<Rightarrow> Written wb' fileName)"

section \<open>Sample inputs\<close>

text \<open>
  Concrete inputs at which the theorems below are evaluated: three uploaded documents
  with their previews, a spreadsheet with the headers A, B, C of which A and C are
  selected, and the custom template.
\<close>

definition sample_files :: "File list" where
  "sample_files =
     [\<lparr>file_name = ''a.png'', file_type = ''image/png''\<rparr>,
      \<lparr>file_name = ''b.pdf'', file_type = ''application/pdf''\<rparr>,
      \<lparr>file_name = ''c.jpg'', file_type = ''image/jpeg''\<rparr>]"

definition sample_previews :: "preview list" where
  "sample_previews =
     [\<lparr>url = ''data:image/png;base64,AA'', preview_type = ''image/png'', preview_name = ''a.png''\<rparr>,
      \<lparr>url = ''data:application/pdf;base64,BB'', preview_type = ''application/pdf'',
       preview_name = ''b.pdf''\<rparr>,
      \<lparr>url = ''data:image/jpeg;base64,CC'', preview_type = ''image/jpeg'', preview_name = ''c.jpg''\<rparr>]"

definition sample_state :: app_state where
  "sample_state =
     \<lparr>docFiles = sample_files, docPreviews = sample_previews,
      excelFile = Some \<lparr>file_name = ''t.xlsx'', file_type = ''application/vnd.ms-excel''\<rparr>,
      allHeaders = [''A'', ''B'', ''C''], selectedHeaders = [''A'', ''C''],
      selectedTemplate = EXTRACTION_TEMPLATES ! 0, customInstructions = ''go'',
      status = St_idle, extractedRows = [], error = None\<rparr>"

text \<open>
  A client that answers every document with its own address under the key A, and one
  that fails on the second document.
\<close>

definition echo_client :: client where
  "echo_client u ins cols = Inr [(''A'', JStr u)]"

definition failing_client :: client where
  "failing_client u ins cols =
     (if u = ''data:application/pdf;base64,BB'' then Inl (ThrownValue (Some ''boom''))
      else Inr [(''A'', JStr u)])"

text \<open>
  The sample state on a later run: the first document was removed, the second now comes
  first, and the result sequence still holds a row of an earlier run.
\<close>

definition rerun_state :: app_state where
  "rerun_state =
     sample_state\<lparr>docFiles := tl sample_files, docPreviews := tl sample_previews,
                  status := St_success,
                  extractedRows := [[(''A'', JStr ''old''), (''B'', JStr []), (''C'', JStr [])]]\<rparr>"

text \<open>
  A stand-in for the spreadsheet library: a sheet is its grid of cells together with
  its data rows as records, every file holds one sheet named Sheet1 with the given
  content, and a sheet made from records reads back as those records.
\<close>

definition toy_xlsx ::
  "cell list list \<Rightarrow> ExtractedData list \<Rightarrow> (cell list list \<times> ExtractedData list) xlsx" where
  "toy_xlsx grid records =
     \<lparr>xlsx_read = (\<lambda>f. Inr \<lparr>SheetNames = [''Sheet1''], Sheets = [(''Sheet1'', (grid, records))]\<rparr>),
      sheet_to_json_header1 = (\<lambda>s. case s of None \<Rightarrow> Inr [] | Some (g, rs) \<Rightarrow> Inr g),
      sheet_to_json = (\<lambda>s. case s of None \<Rightarrow> Inr [] | Some (g, rs) \<Rightarrow> Inr rs),
      json_to_sheet = (\<lambda>rows. Inr ([], rows)),
      writeFile = (\<lambda>wb fileName. None)\<rparr>"

definition sample_template_file :: File where
  "sample_template_file = \<lparr>file_name = ''t.xlsx'', file_type = ''application/vnd.ms-excel''\<rparr>"

text \<open>
  A state with one document whose spreadsheet has a column named like a member of
  \<^verbatim>\<open>Object.prototype\<close> and a column named \<^verbatim>\<open>__proto__\<close>, the latter selected;
  and a vendor that answers every request with an empty JSON object.
\<close>

definition inherited_names_state :: app_state where
  "inherited_names_state =
     sample_state\<lparr>docFiles := take 1 sample_files, docPreviews := take 1 sample_previews,
                  allHeaders := [''A'', ''constructor'', ''__proto__''],
                  selectedHeaders := [''A'', ''__proto__'']\<rparr>"

definition empty_object_vendor :: "request \<Rightarrow> thrown + string option" where
  "empty_object_vendor req = Inr (Some ''{}'')"

definition empty_object_parser :: "string \<Rightarrow> thrown + ExtractedData" where
  "empty_object_parser t = Inr []"

section \<open>Auxiliary facts\<close>

text \<open>
  The loops are unfolded by the step lemmas below, one iteration at a time, so their
  defining equations are taken out of the simplifier's rules.
\<close>

declare loop1.simps [simp del] loop2.simps [simp del]

lemmas sample_defs =
  sample_state_def sample_files_def sample_previews_def echo_client_def failing_client_def
  EXTRACTION_TEMPLATES_def instructions_of_def

lemmas object_defs =
  assign_def get_prop_def keep_defined_def keep_truthy_def key_before_def array_index_def
  Object_prototype_names_def inherited_def

lemmas run_defs =
  processData1_def processData2_def loop1.simps loop2.simps fullRow1_def fullRow2_def
  object_defs state_after_def message_or_def attempt_def

subsection \<open>Objects built by assignment over a list of keys\<close>

lemma set_insert_key: "set (insert_key k v ps) = insert (k, v) (set ps)"
  by (induction ps) auto

lemma map_of_insert_key:
  "k \<notin> fst ` set ps \<Longrightarrow> map_of (insert_key k v ps) = (map_of ps)(k \<mapsto> v)"
  by (induction ps) (auto simp: fun_eq_iff)

lemma distinct_insert_key:
  "k \<notin> fst ` set ps \<Longrightarrow> distinct (map fst ps) \<Longrightarrow> distinct (map fst (insert_key k v ps))"
  by (induction ps) (auto simp: set_insert_key)

lemma map_of_assign:
  "''__proto__'' \<noteq> k \<Longrightarrow> map_of (fst (assign k v kind obj)) = (map_of (fst obj))(k \<mapsto> v)"
  by (cases obj) (auto simp: assign_def update_conv' map_of_insert_key)

lemma keys_assign:
  "''__proto__'' \<noteq> k \<Longrightarrow> fst ` set (fst (assign k v kind obj)) = insert k (fst ` set (fst obj))"
  by (cases obj) (auto simp: assign_def dom_update set_insert_key)

lemma distinct_assign:
  "distinct (map fst (fst obj)) \<Longrightarrow> distinct (map fst (fst (assign k v kind obj)))"
  by (cases obj) (simp add: assign_def distinct_update distinct_insert_key)

lemma map_of_foldl_assign:
  "''__proto__'' \<notin> set ks \<Longrightarrow>
     map_of (fst (foldl (\<lambda>obj k. assign k (g k) (kd k) obj) obj ks)) k' =
       (if k' \<in> set ks then Some (g k') else map_of (fst obj) k')"
  by (induction ks arbitrary: obj) (auto simp: map_of_assign)

lemma keys_foldl_assign:
  "''__proto__'' \<notin> set ks \<Longrightarrow>
     fst ` set (fst (foldl (\<lambda>obj k. assign k (g k) (kd k) obj) obj ks)) = set ks \<union> fst ` set (fst obj)"
  by (induction ks arbitrary: obj) (simp_all add: keys_assign)

lemma distinct_foldl_assign:
  "distinct (map fst (fst obj)) \<Longrightarrow>
     distinct (map fst (fst (foldl (\<lambda>obj k. assign k (g k) (kd k) obj) obj ks)))"
  by (induction ks arbitrary: obj) (simp_all add: distinct_assign)

lemma foldl_assign_cong:
  "(\<And>k. k \<in> set ks \<Longrightarrow> g k = g' k) \<Longrightarrow>
     foldl (\<lambda>obj k. assign k (g k) (kind_of (g k)) obj) obj ks
       = foldl (\<lambda>obj k. assign k (g' k) (kind_of (g' k)) obj) obj ks"
  by (induction ks arbitrary: obj) simp_all

lemma fullRow1_keys:
  "''__proto__'' \<notin> set hs \<Longrightarrow>
     distinct (map fst (fullRow1 hs r)) \<and> set (map fst (fullRow1 hs r)) = set hs"
  by (simp add: fullRow1_def distinct_foldl_assign keys_foldl_assign)

lemma fullRow2_keys:
  "''__proto__'' \<notin> set hs \<Longrightarrow>
     distinct (map fst (fullRow2 hs r)) \<and> set (map fst (fullRow2 hs r)) = set hs"
  by (simp add: fullRow2_def distinct_foldl_assign keys_foldl_assign)

lemma map_of_fullRow1:
  "''__proto__'' \<notin> set hs \<Longrightarrow>
     map_of (fullRow1 hs r) h =
       (if h \<in> set hs then Some (keep_defined (get_prop r h)) else None)"
  by (simp add: fullRow1_def map_of_foldl_assign)

lemma map_of_fullRow2:
  "''__proto__'' \<notin> set hs \<Longrightarrow>
     map_of (fullRow2 hs r) h =
       (if h \<in> set hs then Some (keep_truthy (get_prop r h)) else None)"
  by (simp add: fullRow2_def map_of_foldl_assign)

lemma get_prop_absent:
  "h \<notin> set Object_prototype_names \<Longrightarrow> map_of r h = None \<Longrightarrow> get_prop r h = JUndefined"
  by (simp add: get_prop_def)

lemma build_properties_keys:
  "''__proto__'' \<notin> set cols \<Longrightarrow>
     distinct (map fst (build_properties cols)) \<and> set (map fst (build_properties cols)) = set cols"
  by (simp add: build_properties_def distinct_foldl_assign keys_foldl_assign)

lemma keep_or_blank_agree:
  "keep_defined v = keep_truthy v \<longleftrightarrow> v \<notin> {JBool False, JNum 0, JNull}"
  by (cases v) (auto simp: keep_defined_def keep_truthy_def)

subsection \<open>Effects of a run\<close>

lemma nth_opt_eq: "nth_opt xs i = (if i < length xs then Some (xs ! i) else None)"
  by (induction xs i rule: nth_opt.induct) simp_all

lemma state_after_Nil: "state_after [] s = s"
  by (simp add: state_after_def)

lemma state_after_Cons: "state_after (ev # evs) s = state_after evs (apply_event s ev)"
  by (simp add: state_after_def)

lemma state_after_append: "state_after (xs @ ys) s = state_after ys (state_after xs s)"
  by (simp add: state_after_def)

lemma calls_of_append: "calls_of (xs @ ys) = calls_of xs @ calls_of ys"
  by (induction xs rule: calls_of.induct) simp_all

lemma state_after_progress:
  "state_after (concat (map (\<lambda>j. [Extract (u j) a b, SetExtractedRows (f j)]) js)) s =
     (if js = [] then s else s\<lparr>extractedRows := f (last js)\<rparr>)"
  by (induction js arbitrary: s) (simp_all add: state_after_Nil state_after_Cons)

lemma calls_of_progress:
  "calls_of (concat (map (\<lambda>j. [Extract (u j) a b, SetExtractedRows (f j)]) js)) =
     map (\<lambda>j. (u j, a, b)) js"
  by (induction js) simp_all

lemma state_after_calls: "state_after (map (\<lambda>j. Extract (u j) a b) js) s = s"
  by (induction js) (simp_all add: state_after_Nil state_after_Cons)

lemma calls_of_calls: "calls_of (map (\<lambda>j. Extract (u j) a b) js) = map (\<lambda>j. (u j, a, b)) js"
  by (induction js) simp_all

subsection \<open>One iteration of each loop\<close>

lemma attempt_Inr_preview:
  "attempt e st ins i = Inr r \<Longrightarrow>
     i < length (docPreviews st) \<and> e (url (docPreviews st ! i)) ins (selectedHeaders st) = Inr r"
  by (auto simp: attempt_def nth_opt_eq split: if_splits)

lemma loop1_done: "\<not> i < length (docFiles st) \<Longrightarrow> loop1 e st ins i rs = ([], None)"
  by (subst loop1.simps) simp

lemma loop1_step_ok:
  assumes "i < length (docFiles st)" and "attempt e st ins i = Inr r"
  shows "loop1 e st ins i rs =
           (Extract (url (docPreviews st ! i)) ins (selectedHeaders st)
              # SetExtractedRows (rs @ [fullRow1 (allHeaders st) r])
              # fst (loop1 e st ins (Suc i) (rs @ [fullRow1 (allHeaders st) r])),
            snd (loop1 e st ins (Suc i) (rs @ [fullRow1 (allHeaders st) r])))"
  using assms attempt_Inr_preview[OF assms(2)]
  by (subst loop1.simps) (simp add: nth_opt_eq Let_def)

lemma loop1_step_fail:
  assumes "i < length (docFiles st)" and "attempt e st ins i = Inl err"
  shows "loop1 e st ins i rs =
           (if i < length (docPreviews st)
            then [Extract (url (docPreviews st ! i)) ins (selectedHeaders st)] else [],
            Some err)"
  using assms
  by (subst loop1.simps) (auto simp: attempt_def nth_opt_eq Let_def split: sum.splits)

lemma loop2_done: "\<not> i < length (docFiles st) \<Longrightarrow> loop2 e st ins i rs = ([], Inr rs)"
  by (subst loop2.simps) simp

lemma loop2_step_ok:
  assumes "i < length (docFiles st)" and "attempt e st ins i = Inr r"
  shows "loop2 e st ins i rs =
           (Extract (url (docPreviews st ! i)) ins (selectedHeaders st)
              # fst (loop2 e st ins (Suc i) (rs @ [fullRow2 (allHeaders st) r])),
            snd (loop2 e st ins (Suc i) (rs @ [fullRow2 (allHeaders st) r])))"
  using assms attempt_Inr_preview[OF assms(2)]
  by (subst loop2.simps) (simp add: nth_opt_eq Let_def)

lemma loop2_step_fail:
  assumes "i < length (docFiles st)" and "attempt e st ins i = Inl err"
  shows "loop2 e st ins i rs =
           (if i < length (docPreviews st)
            then [Extract (url (docPreviews st ! i)) ins (selectedHeaders st)] else [],
            Inl err)"
  using assms
  by (subst loop2.simps) (auto simp: attempt_def nth_opt_eq Let_def split: sum.splits)

subsection \<open>Several iterations\<close>

lemma loop1_unroll:
  assumes "i \<le> k" and "k \<le> length (docFiles st)"
    and "\<And>j. i \<le> j \<Longrightarrow> j < k \<Longrightarrow> \<exists>r. attempt e st ins j = Inr r"
  shows "loop1 e st ins i rs =
           (concat (map (\<lambda>j. [Extract (url (docPreviews st ! j)) ins (selectedHeaders st),
                               SetExtractedRows
                                 (rs @ map (\<lambda>m. fullRow1 (allHeaders st) (projr (attempt e st ins m)))
                                        [i..<Suc j])])
                        [i..<k])
              @ fst (loop1 e st ins k
                       (rs @ map (\<lambda>m. fullRow1 (allHeaders st) (projr (attempt e st ins m))) [i..<k])),
            snd (loop1 e st ins k
                   (rs @ map (\<lambda>m. fullRow1 (allHeaders st) (projr (attempt e st ins m))) [i..<k])))"
  using assms
proof (induction k rule: nat_induct_at_least)
  case base
  show ?case by simp
next
  case (Suc k)
  from Suc.prems(2)[of k] Suc.hyps obtain r where r: "attempt e st ins k = Inr r" by auto
  have lt: "k < length (docFiles st)" using Suc.prems(1) by simp
  have IH: "loop1 e st ins i rs =
           (concat (map (\<lambda>j. [Extract (url (docPreviews st ! j)) ins (selectedHeaders st),
                               SetExtractedRows
                                 (rs @ map (\<lambda>m. fullRow1 (allHeaders st) (projr (attempt e st ins m)))
                                        [i..<Suc j])])
                        [i..<k])
              @ fst (loop1 e st ins k
                       (rs @ map (\<lambda>m. fullRow1 (allHeaders st) (projr (attempt e st ins m))) [i..<k])),
            snd (loop1 e st ins k
                   (rs @ map (\<lambda>m. fullRow1 (allHeaders st) (projr (attempt e st ins m))) [i..<k])))"
    using Suc.IH Suc.prems by simp
  show ?case
    using Suc.hyps
    by (subst IH) (simp add: loop1_step_ok[OF lt r] r)
qed

lemma loop2_unroll:
  assumes "i \<le> k" and "k \<le> length (docFiles st)"
    and "\<And>j. i \<le> j \<Longrightarrow> j < k \<Longrightarrow> \<exists>r. attempt e st ins j = Inr r"
  shows "loop2 e st ins i rs =
           (map (\<lambda>j. Extract (url (docPreviews st ! j)) ins (selectedHeaders st)) [i..<k]
              @ fst (loop2 e st ins k
                       (rs @ map (\<lambda>m. fullRow2 (allHeaders st) (projr (attempt e st ins m))) [i..<k])),
            snd (loop2 e st ins k
                   (rs @ map (\<lambda>m. fullRow2 (allHeaders st) (projr (attempt e st ins m))) [i..<k])))"
  using assms
proof (induction k rule: nat_induct_at_least)
  case base
  show ?case by simp
next
  case (Suc k)
  from Suc.prems(2)[of k] Suc.hyps obtain r where r: "attempt e st ins k = Inr r" by auto
  have lt: "k < length (docFiles st)" using Suc.prems(1) by simp
  have IH: "loop2 e st ins i rs =
           (map (\<lambda>j. Extract (url (docPreviews st ! j)) ins (selectedHeaders st)) [i..<k]
              @ fst (loop2 e st ins k
                       (rs @ map (\<lambda>m. fullRow2 (allHeaders st) (projr (attempt e st ins m))) [i..<k])),
            snd (loop2 e st ins k
                   (rs @ map (\<lambda>m. fullRow2 (allHeaders st) (projr (attempt e st ins m))) [i..<k])))"
    using Suc.IH Suc.prems by simp
  show ?case
    using Suc.hyps
    by (subst IH) (simp add: loop2_step_ok[OF lt r] r)
qed

text \<open>A loop that ends without a throw made every extraction step succeed.\<close>

lemma loop1_None_ok:
  "snd (loop1 e st ins i rs) = None \<Longrightarrow> i \<le> j \<Longrightarrow> j < length (docFiles st) \<Longrightarrow>
     \<exists>r. attempt e st ins j = Inr r"
proof (induction d \<equiv> "length (docFiles st) - i" arbitrary: i rs)
  case 0
  then show ?case by simp
next
  case (Suc d)
  have lt: "i < length (docFiles st)" using Suc.prems by simp
  show ?case
  proof (cases "attempt e st ins i")
    case (Inl err)
    with Suc.prems(1) loop1_step_fail[OF lt Inl, of rs] show ?thesis by simp
  next
    case (Inr r)
    show ?thesis
    proof (cases "j = i")
      case True
      with Inr show ?thesis by blast
    next
      case False
      have "snd (loop1 e st ins (Suc i) (rs @ [fullRow1 (allHeaders st) r])) = None"
        using Suc.prems(1) loop1_step_ok[OF lt Inr, of rs] by simp
      moreover have "d = length (docFiles st) - Suc i" using Suc.hyps(2) by simp
      ultimately show ?thesis
        using Suc.hyps(1)[of "Suc i" "rs @ [fullRow1 (allHeaders st) r]"] Suc.prems False by simp
    qed
  qed
qed

lemma loop2_Inr_ok:
  "snd (loop2 e st ins i rs) = Inr rows \<Longrightarrow> i \<le> j \<Longrightarrow> j < length (docFiles st) \<Longrightarrow>
     \<exists>r. attempt e st ins j = Inr r"
proof (induction d \<equiv> "length (docFiles st) - i" arbitrary: i rs)
  case 0
  then show ?case by simp
next
  case (Suc d)
  have lt: "i < length (docFiles st)" using Suc.prems by simp
  show ?case
  proof (cases "attempt e st ins i")
    case (Inl err)
    with Suc.prems(1) loop2_step_fail[OF lt Inl, of rs] show ?thesis by simp
  next
    case (Inr r)
    show ?thesis
    proof (cases "j = i")
      case True
      with Inr show ?thesis by blast
    next
      case False
      have "snd (loop2 e st ins (Suc i) (rs @ [fullRow2 (allHeaders st) r])) = Inr rows"
        using Suc.prems(1) loop2_step_ok[OF lt Inr, of rs] by simp
      moreover have "d = length (docFiles st) - Suc i" using Suc.hyps(2) by simp
      ultimately show ?thesis
        using Suc.hyps(1)[of "Suc i" "rs @ [fullRow2 (allHeaders st) r]"] Suc.prems False by simp
    qed
  qed
qed

lemma loop1_all_ok:
  assumes "\<And>j. j < length (docFiles st) \<Longrightarrow> \<exists>r. attempt e st ins j = Inr r"
  shows "loop1 e st ins 0 [] =
           (concat (map (\<lambda>j. [Extract (url (docPreviews st ! j)) ins (selectedHeaders st),
                               SetExtractedRows
                                 (map (\<lambda>m. fullRow1 (allHeaders st) (projr (attempt e st ins m)))
                                    [0..<Suc j])])
                        [0..<length (docFiles st)]),
            None)"
  using loop1_unroll[of 0 "length (docFiles st)" st e ins "[]"] assms
  by (simp add: loop1_done)

lemma loop2_all_ok:
  assumes "\<And>j. j < length (docFiles st) \<Longrightarrow> \<exists>r. attempt e st ins j = Inr r"
  shows "loop2 e st ins 0 [] =
           (map (\<lambda>j. Extract (url (docPreviews st ! j)) ins (selectedHeaders st))
              [0..<length (docFiles st)],
            Inr (map (\<lambda>m. fullRow2 (allHeaders st) (projr (attempt e st ins m)))
                   [0..<length (docFiles st)]))"
  using loop2_unroll[of 0 "length (docFiles st)" st e ins "[]"] assms
  by (simp add: loop2_done)

subsection \<open>What a run can emit\<close>

lemma loop1_events:
  "ev \<in> set (fst (loop1 e st ins i rs)) \<Longrightarrow>
     (\<exists>u. ev = Extract u ins (selectedHeaders st)) \<or> (\<exists>rows. ev = SetExtractedRows rows)"
proof (induction d \<equiv> "length (docFiles st) - i" arbitrary: i rs)
  case 0
  then show ?case by (simp add: loop1_done)
next
  case (Suc d)
  have lt: "i < length (docFiles st)" using Suc.hyps(2) by simp
  show ?case
  proof (cases "attempt e st ins i")
    case (Inl err)
    with Suc.prems loop1_step_fail[OF lt Inl, of rs] show ?thesis by (auto split: if_splits)
  next
    case (Inr r)
    have d: "d = length (docFiles st) - Suc i" using Suc.hyps(2) by simp
    from Suc.prems loop1_step_ok[OF lt Inr, of rs]
    consider "ev = Extract (url (docPreviews st ! i)) ins (selectedHeaders st)"
      | "ev = SetExtractedRows (rs @ [fullRow1 (allHeaders st) r])"
      | "ev \<in> set (fst (loop1 e st ins (Suc i) (rs @ [fullRow1 (allHeaders st) r])))"
      by auto
    then show ?thesis
    proof cases
      case 3
      then show ?thesis using Suc.hyps(1)[OF d] by blast
    qed blast+
  qed
qed

lemma loop2_events:
  "ev \<in> set (fst (loop2 e st ins i rs)) \<Longrightarrow> \<exists>u. ev = Extract u ins (selectedHeaders st)"
proof (induction d \<equiv> "length (docFiles st) - i" arbitrary: i rs)
  case 0
  then show ?case by (simp add: loop2_done)
next
  case (Suc d)
  have lt: "i < length (docFiles st)" using Suc.hyps(2) by simp
  show ?case
  proof (cases "attempt e st ins i")
    case (Inl err)
    with Suc.prems loop2_step_fail[OF lt Inl, of rs] show ?thesis by (auto split: if_splits)
  next
    case (Inr r)
    have d: "d = length (docFiles st) - Suc i" using Suc.hyps(2) by simp
    from Suc.prems loop2_step_ok[OF lt Inr, of rs]
    consider "ev = Extract (url (docPreviews st ! i)) ins (selectedHeaders st)"
      | "ev \<in> set (fst (loop2 e st ins (Suc i) (rs @ [fullRow2 (allHeaders st) r])))"
      by auto
    then show ?thesis
    proof cases
      case 2
      then show ?thesis using Suc.hyps(1)[OF d] by blast
    qed blast
  qed
qed

lemma calls_of_mem: "(u, a, b) \<in> set (calls_of evs) \<longleftrightarrow> Extract u a b \<in> set evs"
  by (induction evs rule: calls_of.induct) auto

lemma processData1_calls:
  assumes "(u, a, b) \<in> set (calls_of (processData1 e st))"
  shows "a = instructions_of st \<and> b = selectedHeaders st"
proof -
  obtain evs res where l: "loop1 e st (instructions_of st) 0 [] = (evs, res)"
    by (cases "loop1 e st (instructions_of st) 0 []") blast
  have "Extract u a b \<in> set evs"
    using assms l
    by (cases res) (auto simp: calls_of_mem processData1_def split: if_splits thrown.splits)
  then show ?thesis
    using l loop1_events[of "Extract u a b" e st "instructions_of st" 0 "[]"] by simp
qed

lemma processData2_calls:
  assumes "(u, a, b) \<in> set (calls_of (processData2 e st))"
  shows "a = instructions_of st \<and> b = selectedHeaders st"
proof -
  obtain evs res where l: "loop2 e st (instructions_of st) 0 [] = (evs, res)"
    by (cases "loop2 e st (instructions_of st) 0 []") blast
  have "Extract u a b \<in> set evs"
    using assms l
    by (cases res) (auto simp: calls_of_mem processData2_def split: if_splits thrown.splits)
  then show ?thesis
    using l loop2_events[of "Extract u a b" e st "instructions_of st" 0 "[]"] by simp
qed

lemma processData1_completed:
  assumes "SetStatus St_success \<in> set (processData1 e st)"
  shows "docFiles st \<noteq> [] \<and> excelFile st \<noteq> None \<and> selectedHeaders st \<noteq> []
         \<and> (\<forall>j < length (docFiles st). \<exists>r. attempt e st (instructions_of st) j = Inr r)"
proof -
  have ready: "docFiles st \<noteq> [] \<and> excelFile st \<noteq> None \<and> selectedHeaders st \<noteq> []"
    using assms by (auto simp: processData1_def split: if_splits)
  obtain evs res where l: "loop1 e st (instructions_of st) 0 [] = (evs, res)"
    by (cases "loop1 e st (instructions_of st) 0 []") blast
  have "res = None"
    using assms ready l loop1_events[of "SetStatus St_success" e st "instructions_of st" 0 "[]"]
    by (cases res) (auto simp: processData1_def split: thrown.splits)
  then have "snd (loop1 e st (instructions_of st) 0 []) = None"
    using l by simp
  then show ?thesis using ready loop1_None_ok[of e st "instructions_of st" 0 "[]"] by blast
qed

lemma processData2_completed:
  assumes "SetStatus St_success \<in> set (processData2 e st)"
  shows "docFiles st \<noteq> [] \<and> excelFile st \<noteq> None \<and> selectedHeaders st \<noteq> []
         \<and> (\<forall>j < length (docFiles st). \<exists>r. attempt e st (instructions_of st) j = Inr r)"
proof -
  have ready: "docFiles st \<noteq> [] \<and> excelFile st \<noteq> None \<and> selectedHeaders st \<noteq> []"
    using assms by (auto simp: processData2_def split: if_splits)
  obtain evs res where l: "loop2 e st (instructions_of st) 0 [] = (evs, res)"
    by (cases "loop2 e st (instructions_of st) 0 []") blast
  have "\<exists>rows. res = Inr rows"
    using assms ready l loop2_events[of "SetStatus St_success" e st "instructions_of st" 0 "[]"]
    by (cases res) (auto simp: processData2_def split: thrown.splits)
  then obtain rows where "snd (loop2 e st (instructions_of st) 0 []) = Inr rows"
    using l by auto
  then show ?thesis using ready loop2_Inr_ok[of e st "instructions_of st" 0 "[]" rows] by blast
qed

subsection \<open>A run in which every extraction step succeeds\<close>

lemma processData1_all_ok:
  assumes "docFiles st \<noteq> []" and "excelFile st \<noteq> None" and "selectedHeaders st \<noteq> []"
    and ok: "\<And>j. j < length (docFiles st) \<Longrightarrow> \<exists>r. attempt e st (instructions_of st) j = Inr r"
  shows "processData1 e st =
      [SetStatus St_loading, SetError None]
      @ concat (map (\<lambda>j. [Extract (url (docPreviews st ! j)) (instructions_of st) (selectedHeaders st),
                           SetExtractedRows
                             (map (\<lambda>m. fullRow1 (allHeaders st)
                                          (projr (attempt e st (instructions_of st) m)))
                                [0..<Suc j])])
                  [0..<length (docFiles st)])
      @ [SetStatus St_success]"
  using assms(1-3) by (simp add: processData1_def loop1_all_ok[OF ok])

lemma processData2_all_ok:
  assumes "docFiles st \<noteq> []" and "excelFile st \<noteq> None" and "selectedHeaders st \<noteq> []"
    and ok: "\<And>j. j < length (docFiles st) \<Longrightarrow> \<exists>r. attempt e st (instructions_of st) j = Inr r"
  shows "processData2 e st =
      [SetStatus St_loading, SetError None]
      @ map (\<lambda>j. Extract (url (docPreviews st ! j)) (instructions_of st) (selectedHeaders st))
          [0..<length (docFiles st)]
      @ [SetExtractedRows
           (map (\<lambda>m. fullRow2 (allHeaders st) (projr (attempt e st (instructions_of st) m)))
              [0..<length (docFiles st)]),
         SetStatus St_success]"
  using assms(1-3) by (simp add: processData2_def loop2_all_ok[OF ok])

lemma processData1_success:
  assumes "docFiles st \<noteq> []" and "excelFile st \<noteq> None" and "selectedHeaders st \<noteq> []"
    and ok: "\<And>j. j < length (docFiles st) \<Longrightarrow> \<exists>r. attempt e st (instructions_of st) j = Inr r"
  shows "status (state_after (processData1 e st) st) = St_success"
    and "extractedRows (state_after (processData1 e st) st)
           = map (\<lambda>i. fullRow1 (allHeaders st) (projr (attempt e st (instructions_of st) i)))
               [0..<length (docFiles st)]"
    and "calls_of (processData1 e st)
           = map (\<lambda>i. (url (docPreviews st ! i), instructions_of st, selectedHeaders st))
               [0..<length (docFiles st)]"
proof -
  note p1 = processData1_all_ok[OF assms(1-3) ok]
  have ne: "[0..<length (docFiles st)] \<noteq> []" using assms(1) by simp
  have last: "last [0..<length (docFiles st)] = length (docFiles st) - 1"
    using assms(1) by (cases "length (docFiles st)") simp_all
  have suc: "Suc (length (docFiles st) - 1) = length (docFiles st)"
    using assms(1) by (cases "length (docFiles st)") simp_all
  show "status (state_after (processData1 e st) st) = St_success"
    by (simp add: p1 state_after_append state_after_progress state_after_Cons state_after_Nil)
  show "extractedRows (state_after (processData1 e st) st)
           = map (\<lambda>i. fullRow1 (allHeaders st) (projr (attempt e st (instructions_of st) i)))
               [0..<length (docFiles st)]"
  proof -
    have "extractedRows (state_after (processData1 e st) st)
            = map (\<lambda>i. fullRow1 (allHeaders st) (projr (attempt e st (instructions_of st) i)))
                [0..<Suc (length (docFiles st) - 1)]"
      using ne
      by (simp add: p1 state_after_append state_after_progress state_after_Cons state_after_Nil
            last del: upt_Suc)
    then show ?thesis by (simp only: suc)
  qed
  show "calls_of (processData1 e st)
           = map (\<lambda>i. (url (docPreviews st ! i), instructions_of st, selectedHeaders st))
               [0..<length (docFiles st)]"
    by (simp add: p1 calls_of_append calls_of_progress)
qed

lemma processData2_success:
  assumes "docFiles st \<noteq> []" and "excelFile st \<noteq> None" and "selectedHeaders st \<noteq> []"
    and ok: "\<And>j. j < length (docFiles st) \<Longrightarrow> \<exists>r. attempt e st (instructions_of st) j = Inr r"
  shows "status (state_after (processData2 e st) st) = St_success"
    and "extractedRows (state_after (processData2 e st) st)
           = map (\<lambda>i. fullRow2 (allHeaders st) (projr (attempt e st (instructions_of st) i)))
               [0..<length (docFiles st)]"
    and "calls_of (processData2 e st)
           = map (\<lambda>i. (url (docPreviews st ! i), instructions_of st, selectedHeaders st))
               [0..<length (docFiles st)]"
proof -
  note p2 = processData2_all_ok[OF assms(1-3) ok]
  show "status (state_after (processData2 e st) st) = St_success"
    by (simp add: p2 state_after_append state_after_calls state_after_Cons state_after_Nil)
  show "extractedRows (state_after (processData2 e st) st)
           = map (\<lambda>i. fullRow2 (allHeaders st) (projr (attempt e st (instructions_of st) i)))
               [0..<length (docFiles st)]"
    by (simp add: p2 state_after_append state_after_calls state_after_Cons state_after_Nil)
  show "calls_of (processData2 e st)
           = map (\<lambda>i. (url (docPreviews st ! i), instructions_of st, selectedHeaders st))
               [0..<length (docFiles st)]"
    by (simp add: p2 calls_of_append calls_of_calls)
qed

section \<open>Order of the rows of a successful run\<close>

text \<open>
  Claim C3. In both revisions, for every run that starts (a document, a spreadsheet and
  a selected column are present) and in which the extraction step of each of the \<open>N\<close>
  documents succeeds, the status ends as success and the result sequence has exactly
  \<open>N\<close> rows, row \<open>i\<close> being the normalised extraction result of the document at
  position \<open>i\<close> of the upload order; the client is called once per document, in that
  order.
\<close>

theorem order_preserved_on_success:
  assumes "docFiles st \<noteq> []" and "excelFile st \<noteq> None" and "selectedHeaders st \<noteq> []"
    and "\<forall>i < length (docFiles st). \<exists>r. attempt e st (instructions_of st) i = Inr r"
  shows "status (state_after (processData1 e st) st) = St_success
       \<and> extractedRows (state_after (processData1 e st) st)
           = map (\<lambda>i. fullRow1 (allHeaders st) (projr (attempt e st (instructions_of st) i)))
               [0..<length (docFiles st)]
       \<and> calls_of (processData1 e st)
           = map (\<lambda>i. (url (docPreviews st ! i), instructions_of st, selectedHeaders st))
               [0..<length (docFiles st)]
       \<and> status (state_after (processData2 e st) st) = St_success
       \<and> extractedRows (state_after (processData2 e st) st)
           = map (\<lambda>i. fullRow2 (allHeaders st) (projr (attempt e st (instructions_of st) i)))
               [0..<length (docFiles st)]
       \<and> calls_of (processData2 e st)
           = map (\<lambda>i. (url (docPreviews st ! i), instructions_of st, selectedHeaders st))
               [0..<length (docFiles st)]"
proof -
  have ok: "\<And>j. j < length (docFiles st) \<Longrightarrow> \<exists>r. attempt e st (instructions_of st) j = Inr r"
    using assms(4) by blast
  show ?thesis
    using processData1_success[OF assms(1-3) ok] processData2_success[OF assms(1-3) ok]
    by simp
qed

text \<open>The theorem at the three sample documents, each answered by the echoing client.\<close>

theorem order_preserved_on_success_witness:
  "docFiles sample_state \<noteq> [] \<and> excelFile sample_state \<noteq> None
   \<and> selectedHeaders sample_state \<noteq> []
   \<and> attempt echo_client sample_state (instructions_of sample_state) 0
       = Inr [(''A'', JStr ''data:image/png;base64,AA'')]
   \<and> attempt echo_client sample_state (instructions_of sample_state) 1
       = Inr [(''A'', JStr ''data:application/pdf;base64,BB'')]
   \<and> attempt echo_client sample_state (instructions_of sample_state) 2
       = Inr [(''A'', JStr ''data:image/jpeg;base64,CC'')]
   \<and> status (state_after (processData1 echo_client sample_state) sample_state) = St_success
   \<and> extractedRows (state_after (processData1 echo_client sample_state) sample_state)
       = [[(''A'', JStr ''data:image/png;base64,AA''), (''B'', JStr []), (''C'', JStr [])],
          [(''A'', JStr ''data:application/pdf;base64,BB''), (''B'', JStr []), (''C'', JStr [])],
          [(''A'', JStr ''data:image/jpeg;base64,CC''), (''B'', JStr []), (''C'', JStr [])]]
   \<and> extractedRows (state_after (processData2 echo_client sample_state) sample_state)
       = [[(''A'', JStr ''data:image/png;base64,AA''), (''B'', JStr []), (''C'', JStr [])],
          [(''A'', JStr ''data:application/pdf;base64,BB''), (''B'', JStr []), (''C'', JStr [])],
          [(''A'', JStr ''data:image/jpeg;base64,CC''), (''B'', JStr []), (''C'', JStr [])]]"
proof -
  have len: "length (docFiles sample_state) = 3"
    by (simp add: sample_defs)
  have a0: "attempt echo_client sample_state (instructions_of sample_state) 0
              = Inr [(''A'', JStr ''data:image/png;base64,AA'')]"
    by (simp add: sample_defs attempt_def)
  have a1: "attempt echo_client sample_state (instructions_of sample_state) 1
              = Inr [(''A'', JStr ''data:application/pdf;base64,BB'')]"
    by (simp add: sample_defs attempt_def)
  have a2: "attempt echo_client sample_state (instructions_of sample_state) 2
              = Inr [(''A'', JStr ''data:image/jpeg;base64,CC'')]"
    by (simp add: sample_defs attempt_def numeral_2_eq_2)
  have all: "\<forall>i < length (docFiles sample_state).
               \<exists>r. attempt echo_client sample_state (instructions_of sample_state) i = Inr r"
    unfolding len using a0 a1 a2 by (auto simp: less_Suc_eq numeral_3_eq_3 numeral_2_eq_2)
  have ready: "docFiles sample_state \<noteq> []" "excelFile sample_state \<noteq> None"
    "selectedHeaders sample_state \<noteq> []"
    by (simp_all add: sample_defs)
  have hs: "allHeaders sample_state = [''A'', ''B'', ''C'']"
    by (simp add: sample_defs)
  have upt: "[0..<3] = [0, 1, 2::nat]"
    by (simp add: upt_rec)
  show ?thesis
    using order_preserved_on_success[OF ready all] ready a0 a1 a2
    by (simp add: len upt hs fullRow1_def fullRow2_def object_defs)
qed

section \<open>Width of the rows of a completed run\<close>

text \<open>
  In both revisions, after a run that completes (one that sets the status to success)
  over a header set that holds no name of a member of \<^verbatim>\<open>Object.prototype\<close>, every
  row of the result sequence has exactly one entry per header of the header set, no
  more and no fewer, whatever columns were selected; and row \<open>i\<close> holds the empty
  string under every header that the extraction result of document \<open>i\<close> does not hold.
\<close>

lemma row_width_ordinary_headers:
  assumes names: "set (allHeaders st) \<inter> set Object_prototype_names = {}"
  shows
  "(SetStatus St_success \<in> set (processData1 e st) \<longrightarrow>
      (\<forall>row \<in> set (extractedRows (state_after (processData1 e st) st)).
          distinct (map fst row) \<and> set (map fst row) = set (allHeaders st))
      \<and> (\<forall>i < length (extractedRows (state_after (processData1 e st) st)).
            \<exists>r. attempt e st (instructions_of st) i = Inr r
              \<and> (\<forall>h \<in> set (allHeaders st). map_of r h = None \<longrightarrow>
                    map_of (extractedRows (state_after (processData1 e st) st) ! i) h
                      = Some (JStr []))))
   \<and> (SetStatus St_success \<in> set (processData2 e st) \<longrightarrow>
      (\<forall>row \<in> set (extractedRows (state_after (processData2 e st) st)).
          distinct (map fst row) \<and> set (map fst row) = set (allHeaders st))
      \<and> (\<forall>i < length (extractedRows (state_after (processData2 e st) st)).
            \<exists>r. attempt e st (instructions_of st) i = Inr r
              \<and> (\<forall>h \<in> set (allHeaders st). map_of r h = None \<longrightarrow>
                    map_of (extractedRows (state_after (processData2 e st) st) ! i) h
                      = Some (JStr []))))"
proof (intro conjI impI)
  have np: "''__proto__'' \<notin> set (allHeaders st)"
    using names by (auto simp: Object_prototype_names_def)
  have absent: "get_prop r h = JUndefined" if "h \<in> set (allHeaders st)" and "map_of r h = None"
    for r h
    using that names by (intro get_prop_absent) auto
  {
    assume done1: "SetStatus St_success \<in> set (processData1 e st)"
    note c = processData1_completed[OF done1]
    have ok: "\<And>j. j < length (docFiles st) \<Longrightarrow> \<exists>r. attempt e st (instructions_of st) j = Inr r"
      using c by blast
    have rows: "extractedRows (state_after (processData1 e st) st)
             = map (\<lambda>i. fullRow1 (allHeaders st) (projr (attempt e st (instructions_of st) i)))
                 [0..<length (docFiles st)]"
      using processData1_success(2)[OF _ _ _ ok] c by blast
    show "\<forall>row \<in> set (extractedRows (state_after (processData1 e st) st)).
            distinct (map fst row) \<and> set (map fst row) = set (allHeaders st)"
      unfolding rows using fullRow1_keys[OF np] by auto
    show "\<forall>i < length (extractedRows (state_after (processData1 e st) st)).
              \<exists>r. attempt e st (instructions_of st) i = Inr r
                \<and> (\<forall>h \<in> set (allHeaders st). map_of r h = None \<longrightarrow>
                      map_of (extractedRows (state_after (processData1 e st) st) ! i) h
                        = Some (JStr []))"
    proof (intro allI impI)
      fix i assume "i < length (extractedRows (state_after (processData1 e st) st))"
      then have i: "i < length (docFiles st)" by (simp add: rows)
      then obtain r where r: "attempt e st (instructions_of st) i = Inr r" using ok by blast
      have "extractedRows (state_after (processData1 e st) st) ! i = fullRow1 (allHeaders st) r"
        using i r by (simp add: rows)
      then show "\<exists>r. attempt e st (instructions_of st) i = Inr r
                \<and> (\<forall>h \<in> set (allHeaders st). map_of r h = None \<longrightarrow>
                      map_of (extractedRows (state_after (processData1 e st) st) ! i) h
                        = Some (JStr []))"
        using r absent by (auto simp: map_of_fullRow1[OF np] keep_defined_def)
    qed
  }
  {
    assume done2: "SetStatus St_success \<in> set (processData2 e st)"
    note c = processData2_completed[OF done2]
    have ok: "\<And>j. j < length (docFiles st) \<Longrightarrow> \<exists>r. attempt e st (instructions_of st) j = Inr r"
      using c by blast
    have rows: "extractedRows (state_after (processData2 e st) st)
             = map (\<lambda>i. fullRow2 (allHeaders st) (projr (attempt e st (instructions_of st) i)))
                 [0..<length (docFiles st)]"
      using processData2_success(2)[OF _ _ _ ok] c by blast
    show "\<forall>row \<in> set (extractedRows (state_after (processData2 e st) st)).
            distinct (map fst row) \<and> set (map fst row) = set (allHeaders st)"
      unfolding rows using fullRow2_keys[OF np] by auto
    show "\<forall>i < length (extractedRows (state_after (processData2 e st) st)).
              \<exists>r. attempt e st (instructions_of st) i = Inr r
                \<and> (\<forall>h \<in> set (allHeaders st). map_of r h = None \<longrightarrow>
                      map_of (extractedRows (state_after (processData2 e st) st) ! i) h
                        = Some (JStr []))"
    proof (intro allI impI)
      fix i assume "i < length (extractedRows (state_after (processData2 e st) st))"
      then have i: "i < length (docFiles st)" by (simp add: rows)
      then obtain r where r: "attempt e st (instructions_of st) i = Inr r" using ok by blast
      have "extractedRows (state_after (processData2 e st) st) ! i = fullRow2 (allHeaders st) r"
        using i r by (simp add: rows)
      then show "\<exists>r. attempt e st (instructions_of st) i = Inr r
                \<and> (\<forall>h \<in> set (allHeaders st). map_of r h = None \<longrightarrow>
                      map_of (extractedRows (state_after (processData2 e st) st) ! i) h
                        = Some (JStr []))"
        using r absent by (auto simp: map_of_fullRow2[OF np] keep_truthy_def)
    qed
  }
qed

text \<open>
  Claim C2 at a completed run over one document and the header set A,
  \<^verbatim>\<open>constructor\<close>, \<^verbatim>\<open>__proto__\<close>, where the extraction result holds A only. In both
  revisions the row has two entries for the three headers: under
  \<^verbatim>\<open>constructor\<close> it holds the member that the result inherits from
  \<^verbatim>\<open>Object.prototype\<close> instead of the empty string, and it has no entry for
  \<^verbatim>\<open>__proto__\<close>.
\<close>

theorem row_width_inherited_names:
  "SetStatus St_success \<in> set (processData1 echo_client inherited_names_state)
   \<and> SetStatus St_success \<in> set (processData2 echo_client inherited_names_state)
   \<and> allHeaders inherited_names_state = [''A'', ''constructor'', ''__proto__'']
   \<and> extractedRows (state_after (processData1 echo_client inherited_names_state)
                       inherited_names_state)
       = [[(''A'', JStr ''data:image/png;base64,AA''),
           (''constructor'', JObject ''Object.prototype.constructor'')]]
   \<and> extractedRows (state_after (processData2 echo_client inherited_names_state)
                       inherited_names_state)
       = [[(''A'', JStr ''data:image/png;base64,AA''),
           (''constructor'', JObject ''Object.prototype.constructor'')]]"
  by (simp add: inherited_names_state_def sample_defs run_defs)

section \<open>The fields requested from the extraction client\<close>

text \<open>
  In both revisions, every call of the extraction client made by a run passes exactly
  the selected columns as target field list (so never the full header set when the two
  differ), together with the active instructions.
\<close>

lemma calls_pass_selected_columns:
  assumes "(u, ins, cols) \<in> set (calls_of (processData1 e st)) \<union> set (calls_of (processData2 e st))"
  shows "cols = selectedHeaders st" and "ins = instructions_of st"
    and "selectedHeaders st \<noteq> allHeaders st \<Longrightarrow> cols \<noteq> allHeaders st"
proof -
  have c: "ins = instructions_of st \<and> cols = selectedHeaders st"
    using assms processData1_calls[of u ins cols e st] processData2_calls[of u ins cols e st]
    by blast
  then show "cols = selectedHeaders st" and "ins = instructions_of st" by simp_all
  with c show "cols \<noteq> allHeaders st" if "selectedHeaders st \<noteq> allHeaders st"
    using that by simp
qed

text \<open>
  \<^verbatim>\<open>extractDataFromDocument\<close> hands the vendor one request when the document's
  address is a data URL and none otherwise; the request is the one built from the target
  field list it was given, and the vendor's failure on that request is the failure of
  the call.
\<close>

lemma request_sent:
  "fst (extractDataFromDocument g parse u ins cols) =
     (case match_data_url u of
        None \<Rightarrow> []
      | Some (m, d) \<Rightarrow> [build_request m d ins cols])"
  by (simp add: extractDataFromDocument_def Let_def split: option.splits sum.splits prod.splits)

lemma vendor_failure_propagates:
  "match_data_url u = Some (m, d) \<Longrightarrow> g (build_request m d ins cols) = Inl err \<Longrightarrow>
     gemini_client g parse u ins cols = Inl err"
  by (simp add: gemini_client_def extractDataFromDocument_def)

text \<open>
  The schema of the request lists exactly the target fields as required, and when none
  of them is named \<^verbatim>\<open>__proto__\<close> it has one property per target field and no other.
\<close>

lemma request_schema:
  "rs_required (req_responseSchema (build_request m d ins cols)) = cols"
  "''__proto__'' \<notin> set cols \<Longrightarrow>
     distinct (map fst (rs_properties (req_responseSchema (build_request m d ins cols))))
     \<and> set (map fst (rs_properties (req_responseSchema (build_request m d ins cols)))) = set cols"
  using build_properties_keys[of cols] by (simp_all add: build_request_def)

text \<open>
  Claim C4 at a run over one document with the header set A, \<^verbatim>\<open>constructor\<close>,
  \<^verbatim>\<open>__proto__\<close> and the selection A, \<^verbatim>\<open>__proto__\<close>. In both revisions the one call
  of the client passes the selection, and the one request that
  \<^verbatim>\<open>extractDataFromDocument\<close> hands the vendor for that call requires A and
  \<^verbatim>\<open>__proto__\<close>, but its schema has a property for A only: the assignment
  \<^verbatim>\<open>properties[col] = {...}\<close> for the column \<^verbatim>\<open>__proto__\<close> sets the prototype of
  \<^verbatim>\<open>properties\<close> and adds no property.
\<close>

theorem request_schema_lacks_proto_column:
  "calls_of (processData1 (gemini_client empty_object_vendor empty_object_parser)
              inherited_names_state)
     = [(''data:image/png;base64,AA'', ''go'', [''A'', ''__proto__''])]
   \<and> calls_of (processData2 (gemini_client empty_object_vendor empty_object_parser)
              inherited_names_state)
     = [(''data:image/png;base64,AA'', ''go'', [''A'', ''__proto__''])]
   \<and> selectedHeaders inherited_names_state = [''A'', ''__proto__'']
   \<and> map (\<lambda>req. rs_required (req_responseSchema req))
         (fst (extractDataFromDocument empty_object_vendor empty_object_parser
                 ''data:image/png;base64,AA'' ''go'' [''A'', ''__proto__'']))
       = [[''A'', ''__proto__'']]
   \<and> map (\<lambda>req. map fst (rs_properties (req_responseSchema req)))
         (fst (extractDataFromDocument empty_object_vendor empty_object_parser
                 ''data:image/png;base64,AA'' ''go'' [''A'', ''__proto__'']))
       = [[''A'']]"
  by (simp add: inherited_names_state_def sample_defs run_defs gemini_client_def
        extractDataFromDocument_def empty_object_vendor_def empty_object_parser_def
        match_data_url_def line_terminator_def build_request_def build_properties_def)

section \<open>Starting a run\<close>

text \<open>
  Claim C5. In both revisions a run enters the loading status if and only if at least
  one document is present, a spreadsheet is uploaded and at least one column is
  selected. When one of the three is missing the run does not start: its only effect is
  to set a validation error message, no extraction call is made, and the status and the
  result sequence are unchanged.
\<close>

theorem preconditions_fail_closed:
  "(SetStatus St_loading \<in> set (processData1 e st)
      \<longleftrightarrow> docFiles st \<noteq> [] \<and> excelFile st \<noteq> None \<and> selectedHeaders st \<noteq> [])
   \<and> (SetStatus St_loading \<in> set (processData2 e st)
      \<longleftrightarrow> docFiles st \<noteq> [] \<and> excelFile st \<noteq> None \<and> selectedHeaders st \<noteq> [])
   \<and> (\<not> (docFiles st \<noteq> [] \<and> excelFile st \<noteq> None \<and> selectedHeaders st \<noteq> []) \<longrightarrow>
        (\<exists>msg. processData1 e st = [SetError (Some msg)])
        \<and> (\<exists>msg. processData2 e st = [SetError (Some msg)])
        \<and> calls_of (processData1 e st) = []
        \<and> calls_of (processData2 e st) = []
        \<and> status (state_after (processData1 e st) st) = status st
        \<and> status (state_after (processData2 e st) st) = status st
        \<and> extractedRows (state_after (processData1 e st) st) = extractedRows st
        \<and> extractedRows (state_after (processData2 e st) st) = extractedRows st
        \<and> error (state_after (processData1 e st) st) \<noteq> None
        \<and> error (state_after (processData2 e st) st) \<noteq> None)"
  by (auto simp: processData1_def processData2_def state_after_def
           split: prod.splits option.splits sum.splits)

text \<open>
  The theorem at the sample state with no column selected, and at the sample state
  itself, where the run starts.
\<close>

theorem preconditions_fail_closed_witness:
  "selectedHeaders (sample_state\<lparr>selectedHeaders := []\<rparr>) = []
   \<and> processData1 echo_client (sample_state\<lparr>selectedHeaders := []\<rparr>)
       = [SetError (Some ''Please select at least one column to populate.'')]
   \<and> processData2 echo_client (sample_state\<lparr>selectedHeaders := []\<rparr>)
       = [SetError (Some ''Please upload documents, an Excel file, and select at least one column.'')]
   \<and> status (state_after (processData1 echo_client (sample_state\<lparr>selectedHeaders := []\<rparr>))
               (sample_state\<lparr>selectedHeaders := []\<rparr>)) = St_idle
   \<and> extractedRows (state_after (processData2 echo_client (sample_state\<lparr>selectedHeaders := []\<rparr>))
               (sample_state\<lparr>selectedHeaders := []\<rparr>)) = []
   \<and> SetStatus St_loading \<in> set (processData1 echo_client sample_state)"
  using preconditions_fail_closed [of echo_client "sample_state\<lparr>selectedHeaders := []\<rparr>"]
    preconditions_fail_closed [of echo_client sample_state]
  by (simp add: sample_defs processData1_def processData2_def state_after_def)

section \<open>Selecting documents\<close>

text \<open>
  Claim C9. In both revisions, a selection that holds at least one file but no file
  whose media type contains \<^verbatim>\<open>image\<close> or \<^verbatim>\<open>pdf\<close> is rejected as a whole: the only
  change of the state is the validation error message, and no document is added. A
  selection with at least one valid file appends exactly its valid files, in order, to
  the document list; the other files are dropped and no error is set for them (the first
  revision clears the error, the second leaves it as it was).
\<close>

theorem ingestion_validation:
  "(files \<noteq> [] \<and> filter valid_file files = [] \<longrightarrow>
      handleDocumentChange1 enc (Some files) st
        = st\<lparr>error := Some ''Please select valid image (JPG, PNG) or PDF files.''\<rparr>
      \<and> handleDocumentChange2 enc (Some files) st
        = st\<lparr>error := Some ''No valid images or PDF files found in selection.''\<rparr>)
   \<and> (filter valid_file files \<noteq> [] \<longrightarrow>
      docFiles (handleDocumentChange1 enc (Some files) st) = docFiles st @ filter valid_file files
      \<and> error (handleDocumentChange1 enc (Some files) st) = None
      \<and> docFiles (handleDocumentChange2 enc (Some files) st) = docFiles st @ filter valid_file files
      \<and> error (handleDocumentChange2 enc (Some files) st) = error st)"
  by (auto simp: handleDocumentChange1_def handleDocumentChange2_def Let_def split: sum.splits)

text \<open>
  The theorem at a selection of one text file, and at a selection of a text file
  followed by an image.
\<close>

theorem ingestion_validation_witness:
  "filter valid_file [\<lparr>file_name = ''n.txt'', file_type = ''text/plain''\<rparr>] = []
   \<and> docFiles (handleDocumentChange1 (\<lambda>f. Inr ''data:image/png;base64,AA'')
                 (Some [\<lparr>file_name = ''n.txt'', file_type = ''text/plain''\<rparr>]) initial_state1) = []
   \<and> error (handleDocumentChange2 (\<lambda>f. Inr ''data:image/png;base64,AA'')
                 (Some [\<lparr>file_name = ''n.txt'', file_type = ''text/plain''\<rparr>]) initial_state2)
       = Some ''No valid images or PDF files found in selection.''
   \<and> filter valid_file [\<lparr>file_name = ''n.txt'', file_type = ''text/plain''\<rparr>,
                         \<lparr>file_name = ''a.png'', file_type = ''image/png''\<rparr>]
       = [\<lparr>file_name = ''a.png'', file_type = ''image/png''\<rparr>]
   \<and> docFiles (handleDocumentChange1 (\<lambda>f. Inr ''data:image/png;base64,AA'')
                 (Some [\<lparr>file_name = ''n.txt'', file_type = ''text/plain''\<rparr>,
                        \<lparr>file_name = ''a.png'', file_type = ''image/png''\<rparr>]) initial_state1)
       = [\<lparr>file_name = ''a.png'', file_type = ''image/png''\<rparr>]
   \<and> error (handleDocumentChange1 (\<lambda>f. Inr ''data:image/png;base64,AA'')
                 (Some [\<lparr>file_name = ''n.txt'', file_type = ''text/plain''\<rparr>,
                        \<lparr>file_name = ''a.png'', file_type = ''image/png''\<rparr>]) initial_state1)
       = None"
  using ingestion_validation [of "[\<lparr>file_name = ''n.txt'', file_type = ''text/plain''\<rparr>]"
          "\<lambda>f. Inr ''data:image/png;base64,AA''" initial_state1]
    ingestion_validation [of "[\<lparr>file_name = ''n.txt'', file_type = ''text/plain''\<rparr>]"
          "\<lambda>f. Inr ''data:image/png;base64,AA''" initial_state2]
    ingestion_validation [of "[\<lparr>file_name = ''n.txt'', file_type = ''text/plain''\<rparr>,
                              \<lparr>file_name = ''a.png'', file_type = ''image/png''\<rparr>]"
          "\<lambda>f. Inr ''data:image/png;base64,AA''" initial_state1]
  by (simp add: valid_file_def initial_state1_def initial_state2_def)

section \<open>Merging rows into the spreadsheet\<close>

text \<open>
  Claim C7. In both revisions of \<^verbatim>\<open>appendAndDownloadExcel\<close>, when the library reads
  the file, converts the first sheet to the records \<open>existing\<close>, converts the combined
  records back to a sheet and writes the file, the workbook written has as its first
  sheet the sheet made from \<open>existing\<close> followed by the new rows in the order given,
  its other sheets and its sheet names are those of the original, and the file name is
  the original name behind the revision's fixed prefix. Where the library reads a sheet
  made from records back as those records, the data rows of the written first sheet are
  \<open>existing\<close> followed by the new rows; with no new rows they are the original data
  rows, unchanged and in the same order.
\<close>

theorem merge_appends_rows:
  assumes "xlsx_read X f = Inr wb"
    and "sheet_to_json X (first_sheet wb) = Inr existing"
    and "json_to_sheet X (existing @ newData) = Inr sh"
    and "\<forall>n. writeFile X (wb\<lparr>Sheets := AList.update (firstSheetName wb) sh (Sheets wb)\<rparr>) n = None"
  shows "\<exists>wb'. appendAndDownloadExcel_fh X f newData = Written wb' (''updated_'' @ file_name f)
          \<and> appendAndDownloadExcel_p1 X f newData = Written wb' (''datafide_results_'' @ file_name f)
          \<and> SheetNames wb' = SheetNames wb
          \<and> first_sheet wb' = Some sh
          \<and> (\<forall>k. k \<noteq> firstSheetName wb \<longrightarrow> map_of (Sheets wb') k = map_of (Sheets wb) k)
          \<and> ((\<forall>rows s. json_to_sheet X rows = Inr s \<longrightarrow> sheet_to_json X (Some s) = Inr rows) \<longrightarrow>
                sheet_to_json X (first_sheet wb') = Inr (existing @ newData)
                \<and> (newData = [] \<longrightarrow>
                      sheet_to_json X (first_sheet wb') = sheet_to_json X (first_sheet wb)))"
proof -
  let ?wb = "wb\<lparr>Sheets := AList.update (firstSheetName wb) sh (Sheets wb)\<rparr>"
  have run: "append_rows X prefix f newData = Inr (?wb, prefix @ file_name f)" for prefix
    using assms by (simp add: append_rows_def)
  have name: "firstSheetName ?wb = firstSheetName wb"
    by (simp add: firstSheetName_def)
  have first: "first_sheet ?wb = Some sh"
    by (simp add: first_sheet_def name update_conv')
  have others: "\<forall>k. k \<noteq> firstSheetName wb \<longrightarrow> map_of (Sheets ?wb) k = map_of (Sheets wb) k"
    by (simp add: update_conv')
  have readback: "sheet_to_json X (first_sheet ?wb) = Inr (existing @ newData)"
    if "\<forall>rows s. json_to_sheet X rows = Inr s \<longrightarrow> sheet_to_json X (Some s) = Inr rows"
    using that assms(3) first by simp
  have "appendAndDownloadExcel_fh X f newData = Written ?wb (''updated_'' @ file_name f)"
    by (simp add: appendAndDownloadExcel_fh_def run)
  moreover have "appendAndDownloadExcel_p1 X f newData
                   = Written ?wb (''datafide_results_'' @ file_name f)"
    by (simp add: appendAndDownloadExcel_p1_def run)
  moreover have "SheetNames ?wb = SheetNames wb" by simp
  moreover have "(\<forall>rows s. json_to_sheet X rows = Inr s \<longrightarrow> sheet_to_json X (Some s) = Inr rows) \<longrightarrow>
                sheet_to_json X (first_sheet ?wb) = Inr (existing @ newData)
                \<and> (newData = [] \<longrightarrow>
                      sheet_to_json X (first_sheet ?wb) = sheet_to_json X (first_sheet wb))"
    using readback assms(2) by auto
  ultimately show ?thesis using first others by blast
qed

text \<open>
  The theorem at the stand-in library, a sheet with one data row and no new rows: the
  written first sheet reads back as that one row.
\<close>

theorem merge_appends_rows_witness:
  "xlsx_read (toy_xlsx [[CStr ''A'']] [[(''A'', JStr ''old'')]]) sample_template_file
     = Inr \<lparr>SheetNames = [''Sheet1''],
            Sheets = [(''Sheet1'', ([[CStr ''A'']], [[(''A'', JStr ''old'')]]))]\<rparr>
   \<and> appendAndDownloadExcel_p1 (toy_xlsx [[CStr ''A'']] [[(''A'', JStr ''old'')]])
         sample_template_file []
       = Written \<lparr>SheetNames = [''Sheet1''], Sheets = [(''Sheet1'', ([], [[(''A'', JStr ''old'')]]))]\<rparr>
           ''datafide_results_t.xlsx''
   \<and> appendAndDownloadExcel_fh (toy_xlsx [[CStr ''A'']] [[(''A'', JStr ''old'')]])
         sample_template_file []
       = Written \<lparr>SheetNames = [''Sheet1''], Sheets = [(''Sheet1'', ([], [[(''A'', JStr ''old'')]]))]\<rparr>
           ''updated_t.xlsx''
   \<and> sheet_to_json (toy_xlsx [[CStr ''A'']] [[(''A'', JStr ''old'')]])
         (first_sheet \<lparr>SheetNames = [''Sheet1''],
                       Sheets = [(''Sheet1'', ([], [[(''A'', JStr ''old'')]]))]\<rparr>)
       = Inr [[(''A'', JStr ''old'')]]"
  using merge_appends_rows [of "toy_xlsx [[CStr ''A'']] [[(''A'', JStr ''old'')]]"
          sample_template_file
          "\<lparr>SheetNames = [''Sheet1''],
            Sheets = [(''Sheet1'', ([[CStr ''A'']], [[(''A'', JStr ''old'')]]))]\<rparr>"
          "[[(''A'', JStr ''old'')]]" "[]" "([], [[(''A'', JStr ''old'')]])"]
  by (simp add: toy_xlsx_def sample_template_file_def first_sheet_def firstSheetName_def
        appendAndDownloadExcel_p1_def appendAndDownloadExcel_fh_def append_rows_def)

section \<open>A run in which an extraction step fails\<close>

text \<open>
  What each revision does when the step for the document at index \<open>k\<close> is the first to
  fail with a value other than \<^verbatim>\<open>undefined\<close> and \<^verbatim>\<open>null\<close>. Both stop there,
  set the status to error and surface the message. The first
  revision has published the rows of the documents before \<open>k\<close>; when \<open>k\<close> is the first
  document it has published nothing, and the result sequence is still the one the state
  held before the run. The second revision publishes rows only after the loop, so a
  failed run leaves the result sequence as it was before the run, whatever \<open>k\<close> is.
\<close>

lemma processData1_first_failure:
  assumes "excelFile st \<noteq> None" and "selectedHeaders st \<noteq> []"
    and k: "k < length (docFiles st)"
    and ok: "\<And>j. j < k \<Longrightarrow> \<exists>r. attempt e st (instructions_of st) j = Inr r"
    and bad: "attempt e st (instructions_of st) k = Inl (ThrownValue message)"
  shows "processData1 e st =
      [SetStatus St_loading, SetError None]
      @ concat (map (\<lambda>j. [Extract (url (docPreviews st ! j)) (instructions_of st) (selectedHeaders st),
                           SetExtractedRows
                             (map (\<lambda>m. fullRow1 (allHeaders st)
                                          (projr (attempt e st (instructions_of st) m)))
                                [0..<Suc j])])
                  [0..<k])
      @ (if k < length (docPreviews st)
         then [Extract (url (docPreviews st ! k)) (instructions_of st) (selectedHeaders st)] else [])
      @ [SetError (Some (message_or message ''An unexpected error occurred during AI processing.'')),
         SetStatus St_error]"
proof -
  have ne: "docFiles st \<noteq> []" using k by auto
  have "loop1 e st (instructions_of st) 0 [] =
      (concat (map (\<lambda>j. [Extract (url (docPreviews st ! j)) (instructions_of st) (selectedHeaders st),
                           SetExtractedRows
                             (map (\<lambda>m. fullRow1 (allHeaders st)
                                          (projr (attempt e st (instructions_of st) m)))
                                [0..<Suc j])])
                  [0..<k])
       @ (if k < length (docPreviews st)
          then [Extract (url (docPreviews st ! k)) (instructions_of st) (selectedHeaders st)] else []),
       Some (ThrownValue message))"
    using loop1_unroll[of 0 k st e "instructions_of st" "[]"] k ok
    by (simp add: loop1_step_fail[OF k bad])
  then show ?thesis
    using ne assms(1,2) by (simp add: processData1_def)
qed

lemma processData2_first_failure:
  assumes "excelFile st \<noteq> None" and "selectedHeaders st \<noteq> []"
    and k: "k < length (docFiles st)"
    and ok: "\<And>j. j < k \<Longrightarrow> \<exists>r. attempt e st (instructions_of st) j = Inr r"
    and bad: "attempt e st (instructions_of st) k = Inl (ThrownValue message)"
  shows "processData2 e st =
      [SetStatus St_loading, SetError None]
      @ map (\<lambda>j. Extract (url (docPreviews st ! j)) (instructions_of st) (selectedHeaders st)) [0..<k]
      @ (if k < length (docPreviews st)
         then [Extract (url (docPreviews st ! k)) (instructions_of st) (selectedHeaders st)] else [])
      @ [SetError (Some (message_or message ''An error occurred during processing.'')),
         SetStatus St_error]"
proof -
  have ne: "docFiles st \<noteq> []" using k by auto
  have "loop2 e st (instructions_of st) 0 [] =
      (map (\<lambda>j. Extract (url (docPreviews st ! j)) (instructions_of st) (selectedHeaders st)) [0..<k]
       @ (if k < length (docPreviews st)
          then [Extract (url (docPreviews st ! k)) (instructions_of st) (selectedHeaders st)] else []),
       Inl (ThrownValue message))"
    using loop2_unroll[of 0 k st e "instructions_of st" "[]"] k ok
    by (simp add: loop2_step_fail[OF k bad])
  then show ?thesis
    using ne assms(1,2) by (simp add: processData2_def)
qed

lemma processData1_fail_stop:
  assumes "excelFile st \<noteq> None" and "selectedHeaders st \<noteq> []"
    and k: "k < length (docFiles st)"
    and ok: "\<And>j. j < k \<Longrightarrow> \<exists>r. attempt e st (instructions_of st) j = Inr r"
    and bad: "attempt e st (instructions_of st) k = Inl (ThrownValue message)"
  shows "status (state_after (processData1 e st) st) = St_error"
    and "error (state_after (processData1 e st) st)
           = Some (message_or message ''An unexpected error occurred during AI processing.'')"
    and "extractedRows (state_after (processData1 e st) st)
           = (if k = 0 then extractedRows st
              else map (\<lambda>i. fullRow1 (allHeaders st) (projr (attempt e st (instructions_of st) i)))
                     [0..<k])"
    and "map fst (calls_of (processData1 e st))
           = map (\<lambda>i. url (docPreviews st ! i)) [0..<k]
             @ (if k < length (docPreviews st) then [url (docPreviews st ! k)] else [])"
proof -
  note p = processData1_first_failure[OF assms(1,2) k ok bad]
  show "status (state_after (processData1 e st) st) = St_error"
    by (simp add: p state_after_append state_after_progress state_after_Cons state_after_Nil)
  show "error (state_after (processData1 e st) st)
           = Some (message_or message ''An unexpected error occurred during AI processing.'')"
    by (simp add: p state_after_append state_after_progress state_after_Cons state_after_Nil)
  show "map fst (calls_of (processData1 e st))
           = map (\<lambda>i. url (docPreviews st ! i)) [0..<k]
             @ (if k < length (docPreviews st) then [url (docPreviews st ! k)] else [])"
    by (simp add: p calls_of_append calls_of_progress comp_def)
  show "extractedRows (state_after (processData1 e st) st)
           = (if k = 0 then extractedRows st
              else map (\<lambda>i. fullRow1 (allHeaders st) (projr (attempt e st (instructions_of st) i)))
                     [0..<k])"
  proof (cases k)
    case 0
    then show ?thesis
      by (simp add: p state_after_append state_after_progress state_after_Cons state_after_Nil)
  next
    case (Suc k')
    have ne: "[0..<k] \<noteq> []" using Suc by simp
    have last: "last [0..<k] = k'" using Suc by simp
    have "extractedRows (state_after (processData1 e st) st)
            = map (\<lambda>i. fullRow1 (allHeaders st) (projr (attempt e st (instructions_of st) i)))
                [0..<Suc k']"
      using ne
      by (simp add: p state_after_append state_after_progress state_after_Cons state_after_Nil last
            del: upt_Suc)
    then show ?thesis by (simp only: Suc nat.simps if_False)
  qed
qed

lemma processData2_fail_stop:
  assumes "excelFile st \<noteq> None" and "selectedHeaders st \<noteq> []"
    and k: "k < length (docFiles st)"
    and ok: "\<And>j. j < k \<Longrightarrow> \<exists>r. attempt e st (instructions_of st) j = Inr r"
    and bad: "attempt e st (instructions_of st) k = Inl (ThrownValue message)"
  shows "status (state_after (processData2 e st) st) = St_error"
    and "error (state_after (processData2 e st) st)
           = Some (message_or message ''An error occurred during processing.'')"
    and "extractedRows (state_after (processData2 e st) st) = extractedRows st"
    and "map fst (calls_of (processData2 e st))
           = map (\<lambda>i. url (docPreviews st ! i)) [0..<k]
             @ (if k < length (docPreviews st) then [url (docPreviews st ! k)] else [])"
proof -
  note p = processData2_first_failure[OF assms(1,2) k ok bad]
  show "status (state_after (processData2 e st) st) = St_error"
    by (simp add: p state_after_append state_after_calls state_after_Cons state_after_Nil)
  show "error (state_after (processData2 e st) st)
           = Some (message_or message ''An error occurred during processing.'')"
    by (simp add: p state_after_append state_after_calls state_after_Cons state_after_Nil)
  show "extractedRows (state_after (processData2 e st) st) = extractedRows st"
    by (simp add: p state_after_append state_after_calls state_after_Cons state_after_Nil)
  show "map fst (calls_of (processData2 e st))
           = map (\<lambda>i. url (docPreviews st ! i)) [0..<k]
             @ (if k < length (docPreviews st) then [url (docPreviews st ! k)] else [])"
    by (simp add: p calls_of_append calls_of_calls comp_def)
qed

text \<open>
  When the value thrown is \<^verbatim>\<open>undefined\<close> or \<^verbatim>\<open>null\<close>, the \<^verbatim>\<open>catch\<close> block
  itself throws on reading the message: the run stops at the same document but sets
  neither the message nor the status, which stays loading.
\<close>

lemma processData_nullish_failure:
  assumes "excelFile st \<noteq> None" and "selectedHeaders st \<noteq> []"
    and k: "k < length (docFiles st)"
    and ok: "\<And>j. j < k \<Longrightarrow> \<exists>r. attempt e st (instructions_of st) j = Inr r"
    and bad: "attempt e st (instructions_of st) k = Inl ThrownNullish"
  shows "status (state_after (processData1 e st) st) = St_loading"
    and "error (state_after (processData1 e st) st) = None"
    and "status (state_after (processData2 e st) st) = St_loading"
    and "error (state_after (processData2 e st) st) = None"
proof -
  have ne: "docFiles st \<noteq> []" using k by auto
  have l1: "loop1 e st (instructions_of st) 0 [] =
      (concat (map (\<lambda>j. [Extract (url (docPreviews st ! j)) (instructions_of st) (selectedHeaders st),
                           SetExtractedRows
                             (map (\<lambda>m. fullRow1 (allHeaders st)
                                          (projr (attempt e st (instructions_of st) m)))
                                [0..<Suc j])])
                  [0..<k])
       @ (if k < length (docPreviews st)
          then [Extract (url (docPreviews st ! k)) (instructions_of st) (selectedHeaders st)] else []),
       Some ThrownNullish)"
    using loop1_unroll[of 0 k st e "instructions_of st" "[]"] k ok
    by (simp add: loop1_step_fail[OF k bad])
  have l2: "loop2 e st (instructions_of st) 0 [] =
      (map (\<lambda>j. Extract (url (docPreviews st ! j)) (instructions_of st) (selectedHeaders st)) [0..<k]
       @ (if k < length (docPreviews st)
          then [Extract (url (docPreviews st ! k)) (instructions_of st) (selectedHeaders st)] else []),
       Inl ThrownNullish)"
    using loop2_unroll[of 0 k st e "instructions_of st" "[]"] k ok
    by (simp add: loop2_step_fail[OF k bad])
  show "status (state_after (processData1 e st) st) = St_loading"
    using ne assms(1,2)
    by (auto simp: processData1_def l1 state_after_append state_after_progress state_after_Cons
          state_after_Nil)
  show "error (state_after (processData1 e st) st) = None"
    using ne assms(1,2)
    by (auto simp: processData1_def l1 state_after_append state_after_progress state_after_Cons
          state_after_Nil)
  show "status (state_after (processData2 e st) st) = St_loading"
    using ne assms(1,2)
    by (auto simp: processData2_def l2 state_after_append state_after_calls state_after_Cons
          state_after_Nil)
  show "error (state_after (processData2 e st) st) = None"
    using ne assms(1,2)
    by (auto simp: processData2_def l2 state_after_append state_after_calls state_after_Cons
          state_after_Nil)
qed

text \<open>
  Claim C1 at three documents of which the second fails, from a state with an empty
  result sequence. Both revisions call the client for the first and the second document
  only, end with the status error and surface the message of the failure. The first
  revision leaves exactly the row of the first document in the result sequence; the
  second leaves the result sequence empty. On a later run of the first revision whose
  first document fails, the result sequence still holds the row of the earlier run.
\<close>

theorem fail_stop_at_second_document:
  "map fst (calls_of (processData1 failing_client sample_state))
     = [''data:image/png;base64,AA'', ''data:application/pdf;base64,BB'']
   \<and> map fst (calls_of (processData2 failing_client sample_state))
     = [''data:image/png;base64,AA'', ''data:application/pdf;base64,BB'']
   \<and> status (state_after (processData1 failing_client sample_state) sample_state) = St_error
   \<and> status (state_after (processData2 failing_client sample_state) sample_state) = St_error
   \<and> error (state_after (processData1 failing_client sample_state) sample_state) = Some ''boom''
   \<and> error (state_after (processData2 failing_client sample_state) sample_state) = Some ''boom''
   \<and> extractedRows (state_after (processData1 failing_client sample_state) sample_state)
       = [[(''A'', JStr ''data:image/png;base64,AA''), (''B'', JStr []), (''C'', JStr [])]]
   \<and> extractedRows (state_after (processData2 failing_client sample_state) sample_state) = []
   \<and> extractedRows (state_after (processData1 failing_client rerun_state) rerun_state)
       = [[(''A'', JStr ''old''), (''B'', JStr []), (''C'', JStr [])]]"
  by (simp add: sample_defs run_defs rerun_state_def)

section \<open>Reading the header row\<close>

text \<open>
  The revision of \<^verbatim>\<open>parseExcelHeaders\<close> in \<^verbatim>\<open>src/unnamed/part_001\<close> returns the
  first row's cells as strings without the undefined, null and blank ones, so every
  header it returns is a non-blank string; it returns no header for a sheet without
  rows and for a first row of blank cells only.
\<close>

lemma parseExcelHeaders_p1_first_row:
  assumes "xlsx_read X f = Inr wb"
    and "sheet_to_json_header1 X (first_sheet wb) = Inr (row # rows)"
  shows "parseExcelHeaders_p1 X number_text f = Inr (map (String_js number_text) (filter (keep_header number_text) row))"
  using assms by (simp add: parseExcelHeaders_p1_def)

lemma parseExcelHeaders_p1_nonblank:
  assumes "parseExcelHeaders_p1 X number_text f = Inr headers" and "h \<in> set headers"
  shows "trim h \<noteq> []"
proof -
  have "\<exists>cells. headers = map (String_js number_text) (filter (keep_header number_text) cells)"
    using assms(1)
    by (auto simp: parseExcelHeaders_p1_def split: sum.splits if_splits intro: exI[of _ "[]"])
  then obtain cells where "headers = map (String_js number_text) (filter (keep_header number_text) cells)" by blast
  with assms(2) show ?thesis by (auto simp: keep_header_def)
qed

lemma parseExcelHeaders_p1_empty:
  assumes "xlsx_read X f = Inr wb"
    and "sheet_to_json_header1 X (first_sheet wb) = Inr jsonData"
    and "jsonData = [] \<or> filter (keep_header number_text) (jsonData ! 0) = []"
  shows "parseExcelHeaders_p1 X number_text f = Inr []"
  using assms by (auto simp: parseExcelHeaders_p1_def)

text \<open>
  The first revision of \<^verbatim>\<open>handleExcelChange\<close> rejects a spreadsheet for which the
  parser returns no header: it sets the message and resets the spreadsheet, the header
  set and the selection.
\<close>

lemma handleExcelChange1_rejects_empty:
  assumes "parse f = Inr []"
  shows "handleExcelChange1 parse (Some (f # fs)) st =
           st\<lparr>excelFile := None, allHeaders := [], selectedHeaders := [],
               error := Some ''The selected Excel file appears to be empty or missing headers.''\<rparr>"
  using assms by (simp add: handleExcelChange1_def removeExcelFile_def)

text \<open>
  Claim C6 at a first row holding a name, an empty cell, a blank cell and another name.
  The revision in \<^verbatim>\<open>src/utils/fileHandlers.ts\<close> returns the row as the library gives
  it, with the undefined and the blank entry; the revision in
  \<^verbatim>\<open>src/unnamed/part_001\<close> returns the two names.
\<close>

theorem headers_returned_unfiltered:
  "parseExcelHeaders_fh
     (toy_xlsx [[CStr ''Name'', CUndefined, CStr ''  '', CStr ''Age'']] []) sample_template_file
     = Inr [CStr ''Name'', CUndefined, CStr ''  '', CStr ''Age'']
   \<and> parseExcelHeaders_p1
     (toy_xlsx [[CStr ''Name'', CUndefined, CStr ''  '', CStr ''Age'']] []) number_text
     sample_template_file
     = Inr [''Name'', ''Age'']"
  by (simp add: parseExcelHeaders_fh_def parseExcelHeaders_p1_def toy_xlsx_def first_sheet_def
        firstSheetName_def keep_header_def trim_def white_space_def)

text \<open>
  Claim C8 at a sheet whose first row is one blank cell, and at a sheet without rows.
  For the blank row the revision in \<^verbatim>\<open>src/utils/fileHandlers.ts\<close> returns the blank
  cell, a header set of one element, and the first revision of the caller accepts such
  a header set; the revision in \<^verbatim>\<open>src/unnamed/part_001\<close> returns no header. For the
  sheet without rows both parsers return no header; the first revision of the caller
  then rejects the spreadsheet with a message, the second keeps the spreadsheet with an
  empty header set and sets no message.
\<close>

theorem blank_headers_not_rejected:
  "parseExcelHeaders_fh (toy_xlsx [[CStr ''  '']] []) sample_template_file = Inr [CStr ''  '']
   \<and> parseExcelHeaders_p1 (toy_xlsx [[CStr ''  '']] []) number_text sample_template_file = Inr []
   \<and> handleExcelChange1 (\<lambda>f. Inr [''  '']) (Some [sample_template_file]) initial_state1
       = initial_state1\<lparr>excelFile := Some sample_template_file, allHeaders := [''  ''],
                        selectedHeaders := [''  '']\<rparr>
   \<and> parseExcelHeaders_fh (toy_xlsx [] []) sample_template_file = Inr []
   \<and> parseExcelHeaders_p1 (toy_xlsx [] []) number_text sample_template_file = Inr []
   \<and> handleExcelChange1 (parseExcelHeaders_p1 (toy_xlsx [] []) number_text) (Some [sample_template_file])
         initial_state1
       = initial_state1\<lparr>error := Some ''The selected Excel file appears to be empty or missing headers.''\<rparr>
   \<and> handleExcelChange2 (parseExcelHeaders_p1 (toy_xlsx [] []) number_text) (Some [sample_template_file])
         initial_state2
       = initial_state2\<lparr>excelFile := Some sample_template_file\<rparr>"
  by (simp add: parseExcelHeaders_fh_def parseExcelHeaders_p1_def toy_xlsx_def first_sheet_def
        firstSheetName_def keep_header_def trim_def white_space_def handleExcelChange1_def
        handleExcelChange2_def removeExcelFile_def initial_state1_def initial_state2_def)

section \<open>The two row normalisations compared\<close>

text \<open>
  For every extraction result and every header set, the normalisation of the first
  revision (keep \<^verbatim>\<open>result[h]\<close> unless it is undefined) and that of the second (keep
  \<^verbatim>\<open>result[h]\<close> when it is truthy) produce the same full row when no header's
  extracted value is \<^verbatim>\<open>false\<close>, \<^verbatim>\<open>0\<close> or \<^verbatim>\<open>null\<close>; so they agree whenever
  every extracted value is a string, the empty string included.
\<close>

lemma normalizations_agree:
  assumes "\<forall>h \<in> set hs. get_prop result h \<notin> {JBool False, JNum 0, JNull}"
  shows "fullRow1 hs result = fullRow2 hs result"
proof -
  have "foldl (\<lambda>obj h. assign h (keep_defined (get_prop result h))
                         (kind_of (keep_defined (get_prop result h))) obj) ([], True) hs
      = foldl (\<lambda>obj h. assign h (keep_truthy (get_prop result h))
                         (kind_of (keep_truthy (get_prop result h))) obj) ([], True) hs"
  proof (rule foldl_assign_cong)
    fix h assume "h \<in> set hs"
    with assms have "get_prop result h \<notin> {JBool False, JNum 0, JNull}" by blast
    then show "keep_defined (get_prop result h) = keep_truthy (get_prop result h)"
      using keep_or_blank_agree [of "get_prop result h"] by blast
  qed
  then show ?thesis by (simp add: fullRow1_def fullRow2_def)
qed

text \<open>
  Claim C10 at the header set A and the extraction results that hold \<^verbatim>\<open>false\<close>,
  \<^verbatim>\<open>0\<close> and the empty string under A. The first revision keeps \<^verbatim>\<open>false\<close> and
  \<^verbatim>\<open>0\<close>, the second writes the empty string in their place, so the two rows differ;
  for the empty string both rows hold the empty string.
\<close>

theorem normalizations_differ:
  "fullRow1 [''A''] [(''A'', JBool False)] = [(''A'', JBool False)]
   \<and> fullRow2 [''A''] [(''A'', JBool False)] = [(''A'', JStr [])]
   \<and> fullRow1 [''A''] [(''A'', JNum 0)] = [(''A'', JNum 0)]
   \<and> fullRow2 [''A''] [(''A'', JNum 0)] = [(''A'', JStr [])]
   \<and> fullRow1 [''A''] [(''A'', JStr [])] = [(''A'', JStr [])]
   \<and> fullRow2 [''A''] [(''A'', JStr [])] = [(''A'', JStr [])]"
  by (simp add: fullRow1_def fullRow2_def object_defs)

end
